theory Spec2Isabelle
  imports Complex_Main "HOL-Library.Multiset"
begin

text \<open>
  A model of \<^verbatim>\<open>alignment_correlation.py\<close>: the turn sequence built from a debate record,
  the task that processes one file, and the batch that runs one task for each file of
  the directory and builds the series to plot. Library calls are functions of an
  environment; the temporary files and the calls of the alignment routine are the state.
\<close>

section \<open>Python values and exceptions\<close>

text \<open>
  The values \<^verbatim>\<open>json.load\<close> produces: None, booleans, integers, floats, strings, lists
  and dictionaries with string keys. A dictionary is an association list in insertion
  order; \<^verbatim>\<open>json.load\<close> keeps one entry per key, and lookup takes the first entry of a
  key. A character of a string stands for one code point. The program never computes
  with a number: it only passes numbers on. The dictionaries the alignment routine
  returns are values of the same kind.
\<close>

datatype pyval =
    PNone
  | PBool bool
  | PInt int
  | PFloat rat
  | PStr string
  | PList "pyval list"
  | PDict "(string \<times> pyval) list"

text \<open>
  An exception that is an instance of \<^verbatim>\<open>Exception\<close>: its class name, \<^verbatim>\<open>str(e)\<close>, the
  frames of its traceback, outermost first, each frame named by its function, and its
  chain: the tracebacks of the exceptions it was raised from or while handling
  (\<^verbatim>\<open>__cause__\<close>, \<^verbatim>\<open>__context__\<close>), the earliest first. An exception raised by the
  interpreter for a subscript of this program has no chain; one that comes out of a
  library call may have one. \<^verbatim>\<open>KeyboardInterrupt\<close> and \<^verbatim>\<open>SystemExit\<close>, which the clause
  \<^verbatim>\<open>except Exception\<close> lets through, are not modelled.
\<close>

record exn =
  cls :: string
  msg :: string
  tb :: "string list"
  chain :: "string list list"

definition raise :: "string \<Rightarrow> string \<Rightarrow> exn" where
  "raise c m = \<lparr>cls = c, msg = m, tb = [], chain = []\<rparr>"

text \<open>An exception that leaves a function gains that function's frame at the outer end.\<close>

definition in_frame :: "string \<Rightarrow> exn + 'a \<Rightarrow> exn + 'a" where
  "in_frame fn r = (case r of Inl e \<Rightarrow> Inl (e\<lparr>tb := fn # tb e\<rparr>) | Inr x \<Rightarrow> Inr x)"

definition bind :: "exn + 'a \<Rightarrow> ('a \<Rightarrow> exn + 'b) \<Rightarrow> exn + 'b" where
  "bind m f = (case m of Inl e \<Rightarrow> Inl e | Inr x \<Rightarrow> f x)"

fun type_name :: "pyval \<Rightarrow> string" where
  "type_name PNone = ''NoneType''"
| "type_name (PBool _) = ''bool''"
| "type_name (PInt _) = ''int''"
| "type_name (PFloat _) = ''float''"
| "type_name (PStr _) = ''str''"
| "type_name (PList _) = ''list''"
| "type_name (PDict _) = ''dict''"

text \<open>\<^verbatim>\<open>repr\<close> of a string without quotes, backslashes or control characters, as all keys
  of this program are: the string between single quotes.\<close>

definition quoted :: "string \<Rightarrow> string" where
  "quoted s = CHR 0x27 # s @ [CHR 0x27]"

definition not_subscriptable :: "pyval \<Rightarrow> exn" where
  "not_subscriptable v =
     raise ''TypeError'' (quoted (type_name v) @ '' object is not subscriptable'')"

text \<open>\<^verbatim>\<open>v[k]\<close> for a string \<open>k\<close>.\<close>

fun getitem_str :: "pyval \<Rightarrow> string \<Rightarrow> exn + pyval" where
  "getitem_str (PDict kvs) k =
     (case map_of kvs k of
        Some x \<Rightarrow> Inr x
      | None \<Rightarrow> Inl (raise ''KeyError'' (quoted k)))"
| "getitem_str (PList xs) k =
     Inl (raise ''TypeError'' ''list indices must be integers or slices, not str'')"
| "getitem_str (PStr s) k =
     Inl (raise ''TypeError'' (''string indices must be integers, not '' @ quoted ''str''))"
| "getitem_str v k = Inl (not_subscriptable v)"

fun digits :: "nat \<Rightarrow> string" where
  "digits n =
     (if n < 10 then [char_of (48 + n)] else digits (n div 10) @ [char_of (48 + n mod 10)])"

text \<open>\<^verbatim>\<open>v[i]\<close> for an integer literal \<open>i \<ge> 0\<close>. A dictionary read from JSON has no
  integer key.\<close>

fun getitem_int :: "pyval \<Rightarrow> nat \<Rightarrow> exn + pyval" where
  "getitem_int (PList xs) i =
     (if i < length xs then Inr (xs ! i)
      else Inl (raise ''IndexError'' ''list index out of range''))"
| "getitem_int (PStr s) i =
     (if i < length s then Inr (PStr [s ! i])
      else Inl (raise ''IndexError'' ''string index out of range''))"
| "getitem_int (PDict kvs) i = Inl (raise ''KeyError'' (digits i))"
| "getitem_int v i = Inl (not_subscriptable v)"

text \<open>\<^verbatim>\<open>v[n:]\<close>. A slice of a list or of a string never raises; a dictionary refuses a
  slice as a key (as unhashable, in CPython before 3.12).\<close>

fun getslice_from :: "pyval \<Rightarrow> nat \<Rightarrow> exn + pyval" where
  "getslice_from (PList xs) n = Inr (PList (drop n xs))"
| "getslice_from (PStr s) n = Inr (PStr (drop n s))"
| "getslice_from (PDict kvs) n =
     Inl (raise ''TypeError'' (''unhashable type: '' @ quoted ''slice''))"
| "getslice_from v n = Inl (not_subscriptable v)"

text \<open>The items a \<^verbatim>\<open>for\<close> loop takes from the result of a slice: the elements of a
  list, the one-character strings of a string.\<close>

fun items_of :: "pyval \<Rightarrow> pyval list" where
  "items_of (PList xs) = xs"
| "items_of (PStr s) = map (\<lambda>c. PStr [c]) s"
| "items_of v = []"

section \<open>The turn sequence: \<^verbatim>\<open>build_turns_from_debate\<close>\<close>

record row =
  Speaker :: string
  Utterance :: pyval

text \<open>\<^verbatim>\<open>debate['players'][side]\<close>.\<close>

definition side_turns :: "pyval \<Rightarrow> string \<Rightarrow> exn + pyval" where
  "side_turns debate side = bind (getitem_str debate ''players'') (\<lambda>p. getitem_str p side)"

text \<open>\<^verbatim>\<open>debate['players']['Affirmative side'][5]['content']\<close>.\<close>

definition seed_utterance :: "pyval \<Rightarrow> exn + pyval" where
  "seed_utterance debate =
     bind (side_turns debate ''Affirmative side'') (\<lambda>a.
     bind (getitem_int a 5) (\<lambda>t. getitem_str t ''content''))"

definition speaker_of :: "nat \<Rightarrow> string" where
  "speaker_of i = (if i mod 2 = 0 then ''Negative side'' else ''Affirmative side'')"

text \<open>The loop over \<^verbatim>\<open>enumerate(...)\<close>: \<open>data\<close> is the list built so far, \<open>i\<close> the
  index of the next item.\<close>

fun alternate :: "row list \<Rightarrow> nat \<Rightarrow> pyval list \<Rightarrow> exn + row list" where
  "alternate data i [] = Inr data"
| "alternate data i (utt # rest) =
     (case getitem_str utt ''content'' of
        Inl e \<Rightarrow> Inl e
      | Inr c \<Rightarrow> alternate (data @ [\<lparr>Speaker = speaker_of i, Utterance = c\<rparr>]) (Suc i) rest)"

definition build_turns_from_debate :: "pyval \<Rightarrow> exn + row list" where
  "build_turns_from_debate debate =
     in_frame ''build_turns_from_debate''
       (bind (seed_utterance debate) (\<lambda>u.
        bind (side_turns debate ''Negative side'') (\<lambda>n.
        bind (getslice_from n 2) (\<lambda>sl.
        alternate [\<lparr>Speaker = ''Affirmative side'', Utterance = u\<rparr>] 0 (items_of sl)))))"

section \<open>The environment and the state of a run\<close>

text \<open>
  What the program calls and does not define, as functions of the run's environment:
  the directory listing, the file contents, \<^verbatim>\<open>json.load\<close>, the creation and the writing
  of the temporary table, the alignment routine \<^verbatim>\<open>dialign\<close>, \<^verbatim>\<open>os.remove\<close>, the order
  in which the pool completes its futures and whether a worker dies before it returns.
  A call that belongs to one task is indexed by that task's input path. \<open>None\<close> of an
  error field means that the call succeeds.
\<close>

record env =
  listdir :: "string \<Rightarrow> exn + string list"
  isfile :: "string \<Rightarrow> bool"
  open_read :: "string \<Rightarrow> exn + string"
  json_load :: "string \<Rightarrow> exn + pyval"
  mkstemp_error :: "string \<Rightarrow> exn option"
  to_csv_error :: "string \<Rightarrow> row list \<Rightarrow> exn option"
  dialign :: "row list \<Rightarrow> string \<Rightarrow> string \<Rightarrow> exn + (pyval \<times> pyval \<times> pyval \<times> pyval \<times> pyval)"
  remove_error :: "string \<Rightarrow> exn option"
  as_completed :: "string list \<Rightarrow> string list"
  result_error :: "string \<Rightarrow> exn option"

text \<open>One call of \<^verbatim>\<open>dialign\<close>: the path it was given, the table found there, and the two
  column labels.\<close>

record call =
  csv_path :: nat
  table :: "row list"
  speaker_col :: string
  utterance_col :: string

text \<open>
  The state a task changes: the temporary files (a path is a number here, with the
  table stored under it) and the calls of \<^verbatim>\<open>dialign\<close> made so far.
\<close>

record state =
  tmp_files :: "(nat \<times> row list) list"
  dialign_calls :: "call list"

text \<open>\<^verbatim>\<open>NamedTemporaryFile(delete=False)\<close> creates an empty file under a name that no
  file has.\<close>

definition fresh_name :: "(nat \<times> row list) list \<Rightarrow> nat" where
  "fresh_name fs = Suc (foldr max (map fst fs) 0)"

definition create_tmp :: "state \<Rightarrow> nat \<times> state" where
  "create_tmp s =
     (let t = fresh_name (tmp_files s) in (t, s\<lparr>tmp_files := (t, []) # tmp_files s\<rparr>))"

definition write_tmp :: "nat \<Rightarrow> row list \<Rightarrow> state \<Rightarrow> state" where
  "write_tmp t data s =
     s\<lparr>tmp_files := map (\<lambda>(k, v). if k = t then (k, data) else (k, v)) (tmp_files s)\<rparr>"

definition remove_tmp :: "nat \<Rightarrow> state \<Rightarrow> state" where
  "remove_tmp t s = s\<lparr>tmp_files := filter (\<lambda>(k, v). k \<noteq> t) (tmp_files s)\<rparr>"

section \<open>One task: \<^verbatim>\<open>process_one_file\<close>\<close>

datatype task_result =
    Success string pyval pyval pyval pyval pyval pyval pyval pyval
  | Failure string string "string list list"

text \<open>The fields of \<open>Success\<close> are, in order, the values under the keys \<^verbatim>\<open>file\<close>,
  \<^verbatim>\<open>comet\<close>, \<^verbatim>\<open>er\<close>, \<^verbatim>\<open>ee\<close>, \<^verbatim>\<open>aff_rep\<close>, \<^verbatim>\<open>neg_rep\<close>, \<^verbatim>\<open>aff_est\<close>, \<^verbatim>\<open>neg_est\<close> and
  \<^verbatim>\<open>aff_init\<close>; those of \<open>Failure\<close> the values under \<^verbatim>\<open>file\<close>, \<^verbatim>\<open>error\<close> and \<^verbatim>\<open>trace\<close>.
  The key \<^verbatim>\<open>ok\<close> is the constructor.\<close>

fun ok :: "task_result \<Rightarrow> bool" where
  "ok (Success f c e1 e2 ar nr ae ne ai) = True"
| "ok (Failure f err tr) = False"

fun file_of :: "task_result \<Rightarrow> string" where
  "file_of (Success f c e1 e2 ar nr ae ne ai) = f"
| "file_of (Failure f err tr) = f"

text \<open>\<^verbatim>\<open>os.path.join\<close> and \<^verbatim>\<open>os.path.basename\<close> on POSIX.\<close>

definition os_path_join :: "string \<Rightarrow> string \<Rightarrow> string" where
  "os_path_join a b =
     (if b \<noteq> [] \<and> hd b = CHR ''/'' then b
      else if a = [] \<or> last a = CHR ''/'' then a @ b
      else a @ ''/'' @ b)"

definition basename :: "string \<Rightarrow> string" where
  "basename p = rev (takeWhile (\<lambda>c. c \<noteq> CHR ''/'') (rev p))"

text \<open>\<^verbatim>\<open>traceback.format_exc(limit)\<close>, as the frames it keeps. It prints the exceptions
  of the chain first and the exception itself last, and applies the limit to each of
  them on its own: of every traceback the first \<open>limit\<close> frames stay. The result
  has one list of frames for each exception printed; the headings and the lines that
  name the exceptions are not modelled.\<close>

definition format_exc :: "nat \<Rightarrow> exn \<Rightarrow> string list list" where
  "format_exc limit e = map (take limit) (chain e @ [tb e])"

text \<open>Lines 43 to 47: the record is read and parsed, its score taken and its turn
  sequence built.\<close>

definition load_record :: "env \<Rightarrow> string \<Rightarrow> exn + (pyval \<times> row list)" where
  "load_record env path_to_file =
     bind (open_read env path_to_file) (\<lambda>f.
     bind (json_load env f) (\<lambda>debate.
     bind (getitem_str debate ''comet score'') (\<lambda>comet_score.
     bind (build_turns_from_debate debate) (\<lambda>data.
     Inr (comet_score, data)))))"

text \<open>Lines 50 to 62: the temporary table is created and written, \<^verbatim>\<open>dialign\<close> is
  called on it, and the \<^verbatim>\<open>finally\<close> clause removes the table; an exception of the
  removal is dropped and the file stays.\<close>

definition call_dialign ::
  "env \<Rightarrow> nat \<Rightarrow> state \<Rightarrow> (exn + (pyval \<times> pyval \<times> pyval \<times> pyval \<times> pyval)) \<times> state" where
  "call_dialign env tmp_path s =
     (case map_of (tmp_files s) tmp_path of
        None \<Rightarrow> (Inl (raise ''FileNotFoundError'' []), s)
      | Some t \<Rightarrow>
          (dialign env t ''Speaker'' ''Utterance'',
           s\<lparr>dialign_calls := dialign_calls s @
              [\<lparr>csv_path = tmp_path, table = t, speaker_col = ''Speaker'',
                utterance_col = ''Utterance''\<rparr>]\<rparr>))"

definition cleanup :: "env \<Rightarrow> string \<Rightarrow> nat \<Rightarrow> state \<Rightarrow> state" where
  "cleanup env path_to_file tmp_path s =
     (case remove_error env path_to_file of
        None \<Rightarrow> remove_tmp tmp_path s
      | Some e \<Rightarrow> s)"

definition align_table ::
  "env \<Rightarrow> string \<Rightarrow> row list \<Rightarrow> state \<Rightarrow>
     (exn + (pyval \<times> pyval \<times> pyval \<times> pyval \<times> pyval)) \<times> state" where
  "align_table env path_to_file data s =
     (case mkstemp_error env path_to_file of
        Some e \<Rightarrow> (Inl e, s)
      | None \<Rightarrow>
          (case create_tmp s of (tmp_path, s1) \<Rightarrow>
            (case to_csv_error env path_to_file data of
               Some e \<Rightarrow> (Inl e, s1)
             | None \<Rightarrow>
                 (case call_dialign env tmp_path (write_tmp tmp_path data s1) of
                    (r, s2) \<Rightarrow> (r, cleanup env path_to_file tmp_path s2)))))"

text \<open>Lines 65 to 76: the metrics are read from the two dictionaries, in the order of
  the keys of the returned record.\<close>

definition collect_metrics ::
  "string \<Rightarrow> pyval \<Rightarrow> pyval \<Rightarrow> pyval \<Rightarrow> exn + task_result" where
  "collect_metrics path_to_file comet_score speaker_independent speaker_dependent =
     bind (getitem_str speaker_independent ''ER'') (\<lambda>e1.
     bind (getitem_str speaker_independent ''EE'') (\<lambda>e2.
     bind (bind (getitem_str speaker_dependent ''Affirmative side'') (\<lambda>a. getitem_str a ''ER'')) (\<lambda>ar.
     bind (bind (getitem_str speaker_dependent ''Negative side'') (\<lambda>n. getitem_str n ''ER'')) (\<lambda>nr.
     bind (bind (getitem_str speaker_dependent ''Affirmative side'') (\<lambda>a. getitem_str a ''EE'')) (\<lambda>ae.
     bind (bind (getitem_str speaker_dependent ''Negative side'') (\<lambda>n. getitem_str n ''EE'')) (\<lambda>ne.
     bind (bind (getitem_str speaker_dependent ''Affirmative side'') (\<lambda>a. getitem_str a ''Initiated'')) (\<lambda>ai.
     Inr (Success (basename path_to_file) comet_score e1 e2 ar nr ae ne ai))))))))"

text \<open>The body of the \<^verbatim>\<open>try\<close> statement of lines 42 to 76.\<close>

definition task_body :: "env \<Rightarrow> state \<Rightarrow> string \<Rightarrow> (exn + task_result) \<times> state" where
  "task_body env s path_to_file =
     (case load_record env path_to_file of
        Inl e \<Rightarrow> (Inl e, s)
      | Inr (comet_score, data) \<Rightarrow>
          (case align_table env path_to_file data s of
             (Inl e, s') \<Rightarrow> (Inl e, s')
           | (Inr (speaker_independent, speaker_dependent, shared_expressions,
                   self_repetitions, online_metrics), s') \<Rightarrow>
               (collect_metrics path_to_file comet_score speaker_independent
                  speaker_dependent, s')))"

text \<open>The handler of lines 78 to 85 turns every exception into an error record.\<close>

definition error_record :: "string \<Rightarrow> exn \<Rightarrow> task_result" where
  "error_record path_to_file e =
     Failure (basename path_to_file) (cls e @ '': '' @ msg e) (format_exc 3 e)"

definition process_one_file :: "env \<Rightarrow> state \<Rightarrow> string \<Rightarrow> task_result \<times> state" where
  "process_one_file env s path_to_file =
     (case task_body env s path_to_file of (r, s') \<Rightarrow>
       (case in_frame ''process_one_file'' r of
          Inr res \<Rightarrow> (res, s')
        | Inl e \<Rightarrow> (error_record path_to_file e, s')))"

section \<open>The batch: \<^verbatim>\<open>main\<close>\<close>

definition debate_path :: string where
  "debate_path = ''MAD_Debate_Process''"

text \<open>Lines 90 to 92.\<close>

definition gather_files :: "env \<Rightarrow> exn + string list" where
  "gather_files env =
     bind (listdir env debate_path) (\<lambda>names.
     Inr (map (os_path_join debate_path)
            (filter (\<lambda>f. isfile env (os_path_join debate_path f)) names)))"

definition status_line :: "task_result \<Rightarrow> string" where
  "status_line res =
     (case res of
        Success f c e1 e2 ar nr ae ne ai \<Rightarrow> ''Processed: '' @ f
      | Failure f err tr \<Rightarrow> ''FAILED: '' @ f @ '' - '' @ err)"

text \<open>
  Lines 98 to 104, over the futures in the order they complete. A future is named by
  the path it was submitted with. The tasks share nothing but the directory of
  temporary files, where each works on a name of its own, so the model runs them one
  after the other in that order. \<^verbatim>\<open>fut.result()\<close> returns what the task returned, or
  raises when the worker died; nothing in \<^verbatim>\<open>main\<close> handles that exception.
\<close>

fun collect ::
  "env \<Rightarrow> state \<Rightarrow> string list \<Rightarrow> task_result list \<Rightarrow> string list \<Rightarrow>
     exn + (task_result list \<times> string list \<times> state)" where
  "collect env s [] results out = Inr (results, out, s)"
| "collect env s (fut # futs) results out =
     (case result_error env fut of
        Some e \<Rightarrow> Inl e
      | None \<Rightarrow>
          (case process_one_file env s fut of (res, s') \<Rightarrow>
             collect env s' futs (results @ [res]) (out @ [status_line res])))"

text \<open>\<^verbatim>\<open>r[k]\<close> for the keys that lines 110 to 117 read. An error record has none of
  them.\<close>

fun getitem_result :: "task_result \<Rightarrow> string \<Rightarrow> exn + pyval" where
  "getitem_result (Success f c e1 e2 ar nr ae ne ai) k =
     (case map_of [(''comet'', c), (''er'', e1), (''ee'', e2), (''aff_rep'', ar),
                   (''neg_rep'', nr), (''aff_est'', ae), (''neg_est'', ne),
                   (''aff_init'', ai)] k of
        Some v \<Rightarrow> Inr v
      | None \<Rightarrow> Inl (raise ''KeyError'' (quoted k)))"
| "getitem_result (Failure f err tr) k = Inl (raise ''KeyError'' (quoted k))"

text \<open>A list comprehension whose element expression may raise.\<close>

fun map_exn :: "('a \<Rightarrow> exn + 'b) \<Rightarrow> 'a list \<Rightarrow> exn + 'b list" where
  "map_exn f [] = Inr []"
| "map_exn f (x # xs) = bind (f x) (\<lambda>y. bind (map_exn f xs) (\<lambda>ys. Inr (y # ys)))"

record series =
  comet_scores :: "pyval list"
  er :: "pyval list"
  ee :: "pyval list"
  affirmative_repetitions :: "pyval list"
  negative_repetitions :: "pyval list"
  affirmative_establishments :: "pyval list"
  negative_establishments :: "pyval list"
  affirmative_initiated :: "pyval list"

text \<open>Lines 107 to 117.\<close>

definition build_series :: "task_result list \<Rightarrow> exn + series" where
  "build_series results =
     (let oks = filter ok results in
      bind (map_exn (\<lambda>r. getitem_result r ''comet'') oks) (\<lambda>cs.
      bind (map_exn (\<lambda>r. getitem_result r ''er'') oks) (\<lambda>e1.
      bind (map_exn (\<lambda>r. getitem_result r ''ee'') oks) (\<lambda>e2.
      bind (map_exn (\<lambda>r. getitem_result r ''aff_rep'') oks) (\<lambda>ar.
      bind (map_exn (\<lambda>r. getitem_result r ''neg_rep'') oks) (\<lambda>nr.
      bind (map_exn (\<lambda>r. getitem_result r ''aff_est'') oks) (\<lambda>ae.
      bind (map_exn (\<lambda>r. getitem_result r ''neg_est'') oks) (\<lambda>ne.
      bind (map_exn (\<lambda>r. getitem_result r ''aff_init'') oks) (\<lambda>ai.
      Inr \<lparr>comet_scores = cs, er = e1, ee = e2, affirmative_repetitions = ar,
           negative_repetitions = nr, affirmative_establishments = ae,
           negative_establishments = ne, affirmative_initiated = ai\<rparr>)))))))))"

record main_out =
  results :: "task_result list"
  printed :: "string list"
  plotted :: series
  final :: state

text \<open>
  \<^verbatim>\<open>main\<close> up to line 117: the files are gathered, the results collected and the
  series built. The seven calls of \<^verbatim>\<open>plot_correlation\<close> that follow draw and print
  from the series and are not modelled.
\<close>

definition main :: "env \<Rightarrow> state \<Rightarrow> exn + main_out" where
  "main env s =
     bind (gather_files env) (\<lambda>files.
     bind (collect env s (as_completed env files) [] []) (\<lambda>(rs, out, s').
     bind (build_series rs) (\<lambda>ser.
     Inr \<lparr>results = rs, printed = out, plotted = ser, final = s'\<rparr>)))"

section \<open>Valid records\<close>

text \<open>
  The input format: a top-level numeric score and, under \<^verbatim>\<open>players\<close>, the two sides, each
  a list of turn objects with a \<^verbatim>\<open>content\<close> field. A valid record has the turns the turn
  sequence is read from: a sixth turn on the Affirmative side, and on the Negative side
  the two turns that are skipped.
\<close>

fun is_turn :: "pyval \<Rightarrow> bool" where
  "is_turn (PDict kvs) = (map_of kvs ''content'' \<noteq> None)"
| "is_turn v = False"

fun is_number :: "pyval \<Rightarrow> bool" where
  "is_number (PInt n) = True"
| "is_number (PFloat x) = True"
| "is_number v = False"

fun turn_list :: "nat \<Rightarrow> pyval \<Rightarrow> bool" where
  "turn_list n (PList ts) = (n \<le> length ts \<and> list_all is_turn ts)"
| "turn_list n v = False"

definition valid_record :: "pyval \<Rightarrow> bool" where
  "valid_record d =
     ((case getitem_str d ''comet score'' of Inr c \<Rightarrow> is_number c | Inl e \<Rightarrow> False) \<and>
      (case side_turns d ''Affirmative side'' of Inr a \<Rightarrow> turn_list 6 a | Inl e \<Rightarrow> False) \<and>
      (case side_turns d ''Negative side'' of Inr n \<Rightarrow> turn_list 2 n | Inl e \<Rightarrow> False))"

section \<open>Example records\<close>

definition turn :: "string \<Rightarrow> pyval" where
  "turn txt = PDict [(''role'', PStr ''assistant''), (''content'', PStr txt)]"

definition debate_of :: "pyval list \<Rightarrow> pyval list \<Rightarrow> pyval" where
  "debate_of aff neg =
     PDict [(''comet score'', PFloat (17 / 20)),
            (''players'', PDict [(''Affirmative side'', PList aff), (''Negative side'', PList neg)])]"

definition six_turns :: "pyval list" where
  "six_turns = [turn ''a0'', turn ''a1'', turn ''a2'', turn ''a3'', turn ''a4'', turn ''a5'']"

definition long_debate :: pyval where
  "long_debate = debate_of six_turns [turn ''n0'', turn ''n1'', turn ''n2'', turn ''n3'', turn ''n4'']"

definition short_debate :: pyval where
  "short_debate = debate_of six_turns [turn ''n0'', turn ''n1'']"

section \<open>An example run\<close>

text \<open>
  A directory with two record files and a subdirectory. The first file holds a valid
  record, the second is cut off after its opening brace. The alignment routine
  returns fixed metrics, and the pool completes the futures in the reverse of the
  order of submission.
\<close>

definition file_a :: string where
  "file_a = ''MAD_Debate_Process/a.json''"

definition file_b :: string where
  "file_b = ''MAD_Debate_Process/b.json''"

definition metrics :: "pyval \<times> pyval \<times> pyval \<times> pyval \<times> pyval" where
  "metrics =
     (PDict [(''ER'', PFloat (1 / 4)), (''EE'', PFloat (1 / 2))],
      PDict [(''Affirmative side'',
                PDict [(''ER'', PFloat (1 / 5)), (''EE'', PFloat (2 / 5)), (''Initiated'', PInt 3)]),
             (''Negative side'',
                PDict [(''ER'', PFloat (3 / 10)), (''EE'', PFloat (3 / 5)), (''Initiated'', PInt 1)])],
      PList [], PList [], PList [])"

definition decode_error :: exn where
  "decode_error =
     \<lparr>cls = ''JSONDecodeError'',
      msg = ''Expecting property name enclosed in double quotes: line 1 column 2 (char 1)'',
      tb = [''load'', ''loads'', ''decode'', ''raw_decode''],
      chain = []\<rparr>"

definition example_env :: env where
  "example_env =
     \<lparr>listdir = (\<lambda>d. if d = ''MAD_Debate_Process'' then Inr [''a.json'', ''sub'', ''b.json'']
                      else Inl (raise ''FileNotFoundError'' d)),
      isfile = (\<lambda>p. p = file_a \<or> p = file_b),
      open_read = (\<lambda>p. if p = file_a then Inr ''<a.json>''
                        else if p = file_b then Inr ''{''
                        else Inl (raise ''FileNotFoundError'' p)),
      json_load = (\<lambda>raw. if raw = ''<a.json>'' then Inr long_debate
                          else Inl decode_error),
      mkstemp_error = (\<lambda>p. None),
      to_csv_error = (\<lambda>p data. None),
      dialign = (\<lambda>t sp ut. Inr metrics),
      remove_error = (\<lambda>p. None),
      as_completed = rev,
      result_error = (\<lambda>p. None)\<rparr>"

definition no_tmp :: state where
  "no_tmp = \<lparr>tmp_files = [], dialign_calls = []\<rparr>"

definition long_turns :: "row list" where
  "long_turns =
     [\<lparr>Speaker = ''Affirmative side'', Utterance = PStr ''a5''\<rparr>,
      \<lparr>Speaker = ''Negative side'', Utterance = PStr ''n2''\<rparr>,
      \<lparr>Speaker = ''Affirmative side'', Utterance = PStr ''n3''\<rparr>,
      \<lparr>Speaker = ''Negative side'', Utterance = PStr ''n4''\<rparr>]"

definition result_a :: task_result where
  "result_a =
     Success ''a.json'' (PFloat (17 / 20)) (PFloat (1 / 4)) (PFloat (1 / 2)) (PFloat (1 / 5))
       (PFloat (3 / 10)) (PFloat (2 / 5)) (PFloat (3 / 5)) (PInt 3)"

definition result_b :: task_result where
  "result_b =
     Failure ''b.json''
       ''JSONDecodeError: Expecting property name enclosed in double quotes: line 1 column 2 (char 1)''
       [[''process_one_file'', ''load'', ''loads'']]"

definition call_a :: call where
  "call_a = \<lparr>csv_path = 1, table = long_turns, speaker_col = ''Speaker'',
              utterance_col = ''Utterance''\<rparr>"

definition series_a :: series where
  "series_a =
     \<lparr>comet_scores = [PFloat (17 / 20)], er = [PFloat (1 / 4)], ee = [PFloat (1 / 2)],
      affirmative_repetitions = [PFloat (1 / 5)], negative_repetitions = [PFloat (3 / 10)],
      affirmative_establishments = [PFloat (2 / 5)], negative_establishments = [PFloat (3 / 5)],
      affirmative_initiated = [PInt 3]\<rparr>"

definition example_out :: main_out where
  "example_out =
     \<lparr>results = [result_b, result_a],
      printed =
        [''FAILED: b.json - JSONDecodeError: Expecting property name enclosed in double quotes: line 1 column 2 (char 1)'',
         ''Processed: a.json''],
      plotted = series_a,
      final = \<lparr>tmp_files = [], dialign_calls = [call_a]\<rparr>\<rparr>"

text \<open>The same run when the worker of the first file dies, and when no temporary file
  can be removed.\<close>

definition broken_pool :: exn where
  "broken_pool =
     raise ''BrokenProcessPool''
       ''A process in the process pool was terminated abruptly while the future was running or pending.''"

definition crash_env :: env where
  "crash_env =
     example_env\<lparr>result_error := (\<lambda>p. if p = file_a then Some broken_pool else None)\<rparr>"

definition leak_env :: env where
  "leak_env =
     example_env\<lparr>remove_error := (\<lambda>p. Some (raise ''PermissionError'' ''[Errno 13] Permission denied''))\<rparr>"

text \<open>The same run when the alignment routine raises on every table.\<close>

definition alignment_error :: exn where
  "alignment_error =
     \<lparr>cls = ''ValueError'', msg = ''no shared expressions'', tb = [''dialign''], chain = []\<rparr>"

definition failing_dialign_env :: env where
  "failing_dialign_env = example_env\<lparr>dialign := (\<lambda>t sp ut. Inl alignment_error)\<rparr>"

text \<open>The same run when the alignment routine raises an exception from another one that
  it caught: the first has two frames, the second two below the frame of the task.\<close>

definition chained_error :: exn where
  "chained_error =
     \<lparr>cls = ''RuntimeError'', msg = ''alignment failed'', tb = [''dialign'', ''run''],
      chain = [[''run'', ''read_table'']]\<rparr>"

definition chained_env :: env where
  "chained_env = example_env\<lparr>dialign := (\<lambda>t sp ut. Inl chained_error)\<rparr>"

text \<open>The same run when every file parses to a record without players, and to one
  without a score.\<close>

definition no_players_env :: env where
  "no_players_env =
     example_env\<lparr>json_load := (\<lambda>raw. Inr (PDict [(''comet score'', PFloat (17 / 20))]))\<rparr>"


definition no_score_env :: env where
  "no_score_env = example_env\<lparr>json_load := (\<lambda>raw. Inr (PDict [(''players'', PDict [])]))\<rparr>"

text \<open>A record whose Affirmative side has five turns only, and the run in which every
  file parses to it.\<close>

definition five_turn_debate :: pyval where
  "five_turn_debate =
     debate_of [turn ''a0'', turn ''a1'', turn ''a2'', turn ''a3'', turn ''a4'']
       [turn ''n0'', turn ''n1'', turn ''n2'']"

definition five_turn_env :: env where
  "five_turn_env = example_env\<lparr>json_load := (\<lambda>raw. Inr five_turn_debate)\<rparr>"

section \<open>Exceptions as values\<close>

lemma bind_Inr_iff: "bind m f = Inr y \<longleftrightarrow> (\<exists>x. m = Inr x \<and> f x = Inr y)"
  by (cases m) (simp_all add: bind_def)

lemma bind_Inr [simp]: "bind (Inr x) f = f x"
  by (simp add: bind_def)

lemma bind_Inl [simp]: "bind (Inl e) f = Inl e"
  by (simp add: bind_def)

lemma in_frame_Inr_iff [simp]: "in_frame fn r = Inr x \<longleftrightarrow> r = Inr x"
  by (cases r) (simp_all add: in_frame_def)

section \<open>Properties of the turn sequence\<close>

lemma is_turn_content: "is_turn t \<Longrightarrow> \<exists>c. getitem_str t ''content'' = Inr c"
  by (cases t) auto

lemma alternate_Inr:
  "alternate data i xs = Inr out \<Longrightarrow>
     length out = length data + length xs \<and> take (length data) out = data \<and>
     (\<forall>j<length xs. Speaker (out ! (length data + j)) = speaker_of (i + j) \<and>
        getitem_str (xs ! j) ''content'' = Inr (Utterance (out ! (length data + j))))"
proof (induction xs arbitrary: data i out)
  case Nil
  then show ?case by simp
next
  case (Cons utt rest)
  from Cons.prems obtain c where c: "getitem_str utt ''content'' = Inr c"
    and rest: "alternate (data @ [\<lparr>Speaker = speaker_of i, Utterance = c\<rparr>]) (Suc i) rest = Inr out"
    by (auto split: sum.splits)
  from Cons.IH [OF rest] have len: "length out = length data + 1 + length rest"
    and tk: "take (length data + 1) out = data @ [\<lparr>Speaker = speaker_of i, Utterance = c\<rparr>]"
    and step: "\<forall>j<length rest. Speaker (out ! (length data + 1 + j)) = speaker_of (Suc i + j) \<and>
        getitem_str (rest ! j) ''content'' = Inr (Utterance (out ! (length data + 1 + j)))"
    by simp_all
  have at: "out ! length data = \<lparr>Speaker = speaker_of i, Utterance = c\<rparr>"
  proof -
    have "out ! length data = take (length data + 1) out ! length data"
      by simp
    also have "\<dots> = (data @ [\<lparr>Speaker = speaker_of i, Utterance = c\<rparr>]) ! length data"
      by (simp only: tk)
    finally show ?thesis by simp
  qed
  have pre: "take (length data) out = data"
  proof -
    have "take (length data) out = take (length data) (take (length data + 1) out)"
      by (simp add: min_def)
    also have "\<dots> = take (length data) (data @ [\<lparr>Speaker = speaker_of i, Utterance = c\<rparr>])"
      by (simp only: tk)
    finally show ?thesis by simp
  qed
  have "\<forall>j<length (utt # rest). Speaker (out ! (length data + j)) = speaker_of (i + j) \<and>
        getitem_str ((utt # rest) ! j) ''content'' = Inr (Utterance (out ! (length data + j)))"
  proof (intro allI impI)
    fix j assume j: "j < length (utt # rest)"
    show "Speaker (out ! (length data + j)) = speaker_of (i + j) \<and>
        getitem_str ((utt # rest) ! j) ''content'' = Inr (Utterance (out ! (length data + j)))"
    proof (cases j)
      case 0
      then show ?thesis using at c by simp
    next
      case (Suc k)
      with j have "k < length rest" by simp
      with step Suc show ?thesis by simp
    qed
  qed
  with len pre show ?case by simp
qed

lemma alternate_total:
  "list_all is_turn xs \<Longrightarrow> \<exists>out. alternate data i xs = Inr out"
proof (induction xs arbitrary: data i)
  case Nil
  then show ?case by simp
next
  case (Cons utt rest)
  from Cons.prems have "is_turn utt" and rest: "list_all is_turn rest" by simp_all
  then obtain c where "getitem_str utt ''content'' = Inr c"
    using is_turn_content [of utt] by blast
  with Cons.IH [OF rest] show ?case by simp
qed

lemma valid_record_parts:
  assumes "valid_record d"
  obtains c aff neg where "getitem_str d ''comet score'' = Inr c" "is_number c"
    "side_turns d ''Affirmative side'' = Inr (PList aff)" "6 \<le> length aff" "list_all is_turn aff"
    "side_turns d ''Negative side'' = Inr (PList neg)" "2 \<le> length neg" "list_all is_turn neg"
proof -
  from assms obtain c a n where c: "getitem_str d ''comet score'' = Inr c" "is_number c"
    and a: "side_turns d ''Affirmative side'' = Inr a" "turn_list 6 a"
    and n: "side_turns d ''Negative side'' = Inr n" "turn_list 2 n"
    by (auto simp add: valid_record_def split: sum.splits)
  from a(2) obtain aff where "a = PList aff" "6 \<le> length aff" "list_all is_turn aff"
    by (cases a) auto
  moreover from n(2) obtain neg where "n = PList neg" "2 \<le> length neg" "list_all is_turn neg"
    by (cases n) auto
  ultimately show thesis using that c a n by blast
qed

lemma valid_seed:
  assumes "valid_record d"
  shows "\<exists>u. seed_utterance d = Inr u"
proof -
  from assms obtain aff where a: "side_turns d ''Affirmative side'' = Inr (PList aff)"
    and len: "6 \<le> length aff" and ts: "list_all is_turn aff"
    by (rule valid_record_parts)
  from len ts have "is_turn (aff ! 5)" by (simp add: list_all_length)
  then obtain u where "getitem_str (aff ! 5) ''content'' = Inr u"
    using is_turn_content by blast
  with a len show ?thesis by (simp add: seed_utterance_def)
qed

lemma build_turns_Inr:
  assumes "build_turns_from_debate d = Inr turns"
  obtains u n sl where "seed_utterance d = Inr u" "side_turns d ''Negative side'' = Inr n"
    "getslice_from n 2 = Inr sl"
    "alternate [\<lparr>Speaker = ''Affirmative side'', Utterance = u\<rparr>] 0 (items_of sl) = Inr turns"
  using assms by (auto simp add: build_turns_from_debate_def bind_Inr_iff)

lemma valid_build:
  assumes "valid_record d" and neg: "side_turns d ''Negative side'' = Inr (PList neg)"
  shows "\<exists>u turns. seed_utterance d = Inr u \<and> build_turns_from_debate d = Inr turns \<and>
     alternate [\<lparr>Speaker = ''Affirmative side'', Utterance = u\<rparr>] 0 (drop 2 neg) = Inr turns"
proof -
  from assms(1) obtain u where u: "seed_utterance d = Inr u"
    using valid_seed by blast
  from assms(1) neg have "list_all is_turn neg"
    by (auto elim!: valid_record_parts)
  then have "list_all is_turn (drop 2 neg)"
    by (auto simp add: list_all_iff dest: in_set_dropD)
  then obtain turns where
    "alternate [\<lparr>Speaker = ''Affirmative side'', Utterance = u\<rparr>] 0 (drop 2 neg) = Inr turns"
    using alternate_total by blast
  with u neg show ?thesis
    by (simp add: build_turns_from_debate_def)
qed

text \<open>Whenever the sequence is built from a list, also from one with fewer than two
  entries, it has the seed row and one row for each entry from index 2 on.\<close>

lemma turn_sequence_length_any:
  assumes "build_turns_from_debate d = Inr turns"
    and "side_turns d ''Negative side'' = Inr (PList neg)"
  shows "length turns = 1 + (length neg - 2)"
proof -
  from assms(1) obtain u n sl where n: "side_turns d ''Negative side'' = Inr n"
    and sl: "getslice_from n 2 = Inr sl"
    and a: "alternate [\<lparr>Speaker = ''Affirmative side'', Utterance = u\<rparr>] 0 (items_of sl) = Inr turns"
    by (rule build_turns_Inr)
  from n sl assms(2) have "items_of sl = drop 2 neg" by auto
  with alternate_Inr [OF a] show ?thesis by simp
qed

text \<open>
  Claim C3. For a valid record the turn sequence is built, and its length is one more than
  the length of the Negative side's list less two. When that list has exactly two
  entries the sequence is the seed row alone.
\<close>

theorem turn_sequence_length:
  assumes "valid_record d" and "side_turns d ''Negative side'' = Inr (PList neg)"
  shows "\<exists>turns. build_turns_from_debate d = Inr turns \<and>
     int (length turns) = 1 + (int (length neg) - 2) \<and>
     (length neg = 2 \<longrightarrow>
        (\<exists>u. seed_utterance d = Inr u \<and>
           turns = [\<lparr>Speaker = ''Affirmative side'', Utterance = u\<rparr>]))"
proof -
  from valid_build [OF assms] obtain u turns where u: "seed_utterance d = Inr u"
    and b: "build_turns_from_debate d = Inr turns"
    and a: "alternate [\<lparr>Speaker = ''Affirmative side'', Utterance = u\<rparr>] 0 (drop 2 neg) = Inr turns"
    by blast
  from assms have two: "2 \<le> length neg"
    by (auto elim!: valid_record_parts)
  from alternate_Inr [OF a] have "length turns = 1 + (length neg - 2)" by simp
  with two have len: "int (length turns) = 1 + (int (length neg) - 2)" by simp
  have "turns = [\<lparr>Speaker = ''Affirmative side'', Utterance = u\<rparr>]" if "length neg = 2"
    using a that by simp
  with b len u show ?thesis by blast
qed

theorem turn_sequence_length_witness:
  "valid_record long_debate \<and>
   side_turns long_debate ''Negative side'' =
     Inr (PList [turn ''n0'', turn ''n1'', turn ''n2'', turn ''n3'', turn ''n4'']) \<and>
   build_turns_from_debate long_debate =
     Inr [\<lparr>Speaker = ''Affirmative side'', Utterance = PStr ''a5''\<rparr>,
          \<lparr>Speaker = ''Negative side'', Utterance = PStr ''n2''\<rparr>,
          \<lparr>Speaker = ''Affirmative side'', Utterance = PStr ''n3''\<rparr>,
          \<lparr>Speaker = ''Negative side'', Utterance = PStr ''n4''\<rparr>] \<and>
   valid_record short_debate \<and>
   build_turns_from_debate short_debate =
     Inr [\<lparr>Speaker = ''Affirmative side'', Utterance = PStr ''a5''\<rparr>]"
proof -
  have v: "valid_record long_debate"
    by (simp add: valid_record_def long_debate_def debate_of_def six_turns_def turn_def
        side_turns_def)
  have n: "side_turns long_debate ''Negative side'' =
     Inr (PList [turn ''n0'', turn ''n1'', turn ''n2'', turn ''n3'', turn ''n4''])"
    by (simp add: long_debate_def debate_of_def side_turns_def)
  have v': "valid_record short_debate"
    by (simp add: valid_record_def short_debate_def debate_of_def six_turns_def turn_def
        side_turns_def)
  have n': "side_turns short_debate ''Negative side'' = Inr (PList [turn ''n0'', turn ''n1''])"
    by (simp add: short_debate_def debate_of_def side_turns_def)
  have u': "seed_utterance short_debate = Inr (PStr ''a5'')"
    by (simp add: seed_utterance_def short_debate_def debate_of_def side_turns_def
        six_turns_def turn_def)
  have b: "build_turns_from_debate long_debate =
     Inr [\<lparr>Speaker = ''Affirmative side'', Utterance = PStr ''a5''\<rparr>,
          \<lparr>Speaker = ''Negative side'', Utterance = PStr ''n2''\<rparr>,
          \<lparr>Speaker = ''Affirmative side'', Utterance = PStr ''n3''\<rparr>,
          \<lparr>Speaker = ''Negative side'', Utterance = PStr ''n4''\<rparr>]"
    by (simp add: build_turns_from_debate_def seed_utterance_def long_debate_def debate_of_def
        side_turns_def six_turns_def turn_def speaker_of_def)
  from turn_sequence_length [OF v n] turn_sequence_length [OF v' n'] u' v n v' b
  show ?thesis by auto
qed


text \<open>
  Claim C4. For a valid record, element 0 of the turn sequence is the seed turn, spoken
  by the Affirmative side, and element \<open>i + 1\<close> carries the content of the Negative
  side's entry \<open>i + 2\<close>, spoken by the Negative side when \<open>i\<close> is even and by the
  Affirmative side when \<open>i\<close> is odd.
\<close>

theorem turn_sequence_alternates:
  assumes "valid_record d" and "side_turns d ''Negative side'' = Inr (PList neg)"
  shows "\<exists>turns. build_turns_from_debate d = Inr turns \<and>
     Speaker (turns ! 0) = ''Affirmative side'' \<and>
     seed_utterance d = Inr (Utterance (turns ! 0)) \<and>
     (\<forall>i. i + 2 < length neg \<longrightarrow>
        Speaker (turns ! (i + 1)) = (if even i then ''Negative side'' else ''Affirmative side'') \<and>
        getitem_str (neg ! (i + 2)) ''content'' = Inr (Utterance (turns ! (i + 1))))"
proof -
  let ?seed = "\<lambda>u. \<lparr>Speaker = ''Affirmative side'', Utterance = u\<rparr>"
  from valid_build [OF assms] obtain u turns where u: "seed_utterance d = Inr u"
    and b: "build_turns_from_debate d = Inr turns"
    and a: "alternate [?seed u] 0 (drop 2 neg) = Inr turns"
    by blast
  from alternate_Inr [OF a] have tk: "take 1 turns = [?seed u]"
    and len: "length turns = 1 + (length neg - 2)"
    and step: "\<forall>j<length (drop 2 neg). Speaker (turns ! (1 + j)) = speaker_of j \<and>
        getitem_str (drop 2 neg ! j) ''content'' = Inr (Utterance (turns ! (1 + j)))"
    by simp_all
  from len have "turns \<noteq> []" by auto
  with tk have hd: "turns ! 0 = ?seed u"
    by (cases turns) simp_all
  have "Speaker (turns ! (i + 1)) = (if even i then ''Negative side'' else ''Affirmative side'') \<and>
        getitem_str (neg ! (i + 2)) ''content'' = Inr (Utterance (turns ! (i + 1)))"
    if i: "i + 2 < length neg" for i
  proof -
    from i have "i < length (drop 2 neg)" by simp
    with step have "Speaker (turns ! (1 + i)) = speaker_of i"
      and "getitem_str (drop 2 neg ! i) ''content'' = Inr (Utterance (turns ! (1 + i)))"
      by blast+
    moreover from i have "drop 2 neg ! i = neg ! (i + 2)"
      by (simp add: add.commute)
    moreover have "speaker_of i = (if even i then ''Negative side'' else ''Affirmative side'')"
      by (simp add: speaker_of_def even_iff_mod_2_eq_zero)
    ultimately show ?thesis by (simp add: add.commute)
  qed
  with b hd u show ?thesis by auto
qed

theorem turn_sequence_alternates_witness:
  "valid_record long_debate \<and>
   (\<exists>turns. build_turns_from_debate long_debate = Inr turns \<and>
      map Speaker turns =
        [''Affirmative side'', ''Negative side'', ''Affirmative side'', ''Negative side''] \<and>
      map Utterance turns = [PStr ''a5'', PStr ''n2'', PStr ''n3'', PStr ''n4''])"
proof -
  let ?neg = "[turn ''n0'', turn ''n1'', turn ''n2'', turn ''n3'', turn ''n4'']"
  have v: "valid_record long_debate"
    by (simp add: valid_record_def long_debate_def debate_of_def six_turns_def turn_def
        side_turns_def)
  have n: "side_turns long_debate ''Negative side'' = Inr (PList ?neg)"
    by (simp add: long_debate_def debate_of_def side_turns_def)
  have b: "build_turns_from_debate long_debate =
     Inr [\<lparr>Speaker = ''Affirmative side'', Utterance = PStr ''a5''\<rparr>,
          \<lparr>Speaker = ''Negative side'', Utterance = PStr ''n2''\<rparr>,
          \<lparr>Speaker = ''Affirmative side'', Utterance = PStr ''n3''\<rparr>,
          \<lparr>Speaker = ''Negative side'', Utterance = PStr ''n4''\<rparr>]"
    by (simp add: build_turns_from_debate_def seed_utterance_def long_debate_def debate_of_def
        side_turns_def six_turns_def turn_def speaker_of_def)
  from turn_sequence_alternates [OF v n] v b show ?thesis by simp
qed

section \<open>Properties of one task\<close>

lemma fresh_name_greater: "k \<in> fst ` set fs \<Longrightarrow> k < fresh_name fs"
proof (induction fs)
  case Nil
  then show ?case by simp
next
  case (Cons x fs)
  show ?case
  proof (cases "k = fst x")
    case True
    then show ?thesis by (simp add: fresh_name_def)
  next
    case False
    with Cons.prems have "k \<in> fst ` set fs" by auto
    with Cons.IH have "k < Suc (foldr max (map fst fs) 0)" by (simp add: fresh_name_def)
    then show ?thesis by (simp add: fresh_name_def)
  qed
qed

lemma write_fresh:
  "map (\<lambda>(k, v). if k = fresh_name fs then (k, data) else (k, v)) fs = fs"
proof -
  have "\<forall>x\<in>set fs. (case x of (k, v) \<Rightarrow> if k = fresh_name fs then (k, data) else (k, v)) = x"
    using fresh_name_greater [of _ fs] by force
  then show ?thesis by (simp add: map_idI)
qed

lemma remove_fresh: "filter (\<lambda>(k, v). k \<noteq> fresh_name fs) fs = fs"
proof -
  have "\<forall>x\<in>set fs. (case x of (k, v) \<Rightarrow> k \<noteq> fresh_name fs)"
    using fresh_name_greater [of _ fs] by force
  then show ?thesis by simp
qed

lemma align_table_eq:
  "align_table env p data s =
     (case mkstemp_error env p of
        Some e \<Rightarrow> (Inl e, s)
      | None \<Rightarrow>
          (case to_csv_error env p data of
             Some e \<Rightarrow> (Inl e, s\<lparr>tmp_files := (fresh_name (tmp_files s), []) # tmp_files s\<rparr>)
           | None \<Rightarrow>
               (dialign env data ''Speaker'' ''Utterance'',
                s\<lparr>tmp_files :=
                     (if remove_error env p = None then tmp_files s
                      else (fresh_name (tmp_files s), data) # tmp_files s),
                   dialign_calls := dialign_calls s @
                     [\<lparr>csv_path = fresh_name (tmp_files s), table = data,
                       speaker_col = ''Speaker'', utterance_col = ''Utterance''\<rparr>]\<rparr>)))"
  by (simp add: align_table_def create_tmp_def write_tmp_def call_dialign_def cleanup_def
      remove_tmp_def write_fresh remove_fresh Let_def split: option.splits)



lemma task_body_fst:
  "fst (task_body env s p) =
     (case load_record env p of
        Inl e \<Rightarrow> Inl e
      | Inr (c, data) \<Rightarrow>
          (case mkstemp_error env p of
             Some e \<Rightarrow> Inl e
           | None \<Rightarrow>
               (case to_csv_error env p data of
                  Some e \<Rightarrow> Inl e
                | None \<Rightarrow>
                    (case dialign env data ''Speaker'' ''Utterance'' of
                       Inl e \<Rightarrow> Inl e
                     | Inr (si, sd, rest) \<Rightarrow> collect_metrics p c si sd))))"
  by (simp add: task_body_def align_table_eq split: sum.splits option.splits prod.splits)

lemma process_one_file_fst:
  "fst (process_one_file env s p) =
     (case in_frame ''process_one_file'' (fst (task_body env s p)) of
        Inr res \<Rightarrow> res
      | Inl e \<Rightarrow> error_record p e)"
  by (cases "task_body env s p"; cases "fst (task_body env s p)")
    (simp_all add: process_one_file_def in_frame_def)

lemma task_body_state_free: "fst (task_body env s p) = fst (task_body env s' p)"
  by (simp only: task_body_fst)

lemma process_one_file_state_free:
  "fst (process_one_file env s p) = fst (process_one_file env s' p)"
  by (simp only: process_one_file_fst task_body_state_free [of env s p s'])

lemma load_record_cong:
  "open_read env' p = open_read env p \<Longrightarrow> json_load env' = json_load env \<Longrightarrow>
     load_record env' p = load_record env p"
  by (simp add: load_record_def)

lemma task_body_cong:
  assumes "open_read env' p = open_read env p" and "json_load env' = json_load env"
    and "mkstemp_error env' p = mkstemp_error env p"
    and "to_csv_error env' p = to_csv_error env p" and "dialign env' = dialign env"
  shows "fst (task_body env' s' p) = fst (task_body env s p)"
proof -
  have "load_record env' p = load_record env p"
    using assms(1,2) by (rule load_record_cong)
  with assms(3,4,5) show ?thesis
    by (simp only: task_body_fst)
qed

text \<open>
  Claim C8. Whether the removal of the temporary table fails or not, the task returns the
  same record: an exception of \<^verbatim>\<open>os.remove\<close> is dropped in the \<^verbatim>\<open>finally\<close> clause, so a
  task whose alignment succeeded still returns its success record.
\<close>

theorem removal_failure_swallowed:
  "fst (process_one_file (env\<lparr>remove_error := r\<rparr>) s p) = fst (process_one_file env s p)"
proof -
  have "fst (task_body (env\<lparr>remove_error := r\<rparr>) s p) = fst (task_body env s p)"
    by (rule task_body_cong) simp_all
  then show ?thesis by (simp only: process_one_file_fst)
qed


lemma load_record_Inr:
  assumes "load_record env p = Inr (c, data)"
  obtains raw d where "open_read env p = Inr raw" "json_load env raw = Inr d"
    "getitem_str d ''comet score'' = Inr c" "build_turns_from_debate d = Inr data"
  using assms by (auto simp add: load_record_def bind_Inr_iff)

lemma task_body_Inr:
  assumes "task_body env s p = (Inr res, s')"
  obtains c data si sd x1 x2 x3 where "load_record env p = Inr (c, data)"
    "mkstemp_error env p = None" "to_csv_error env p data = None"
    "dialign env data ''Speaker'' ''Utterance'' = Inr (si, sd, x1, x2, x3)"
    "collect_metrics p c si sd = Inr res"
    "dialign_calls s' = dialign_calls s @
       [\<lparr>csv_path = fresh_name (tmp_files s), table = data,
         speaker_col = ''Speaker'', utterance_col = ''Utterance''\<rparr>]"
    "tmp_files s' = (if remove_error env p = None then tmp_files s
                     else (fresh_name (tmp_files s), data) # tmp_files s)"
proof -
  from assms obtain c data where l: "load_record env p = Inr (c, data)"
    by (auto simp add: task_body_def split: sum.splits)
  with assms obtain out where a: "align_table env p data s = (Inr out, s')"
    and m: "collect_metrics p c (fst out) (fst (snd out)) = Inr res"
    by (auto simp add: task_body_def split: sum.splits prod.splits)
  obtain si sd x1 x2 x3 where out: "out = (si, sd, x1, x2, x3)"
    by (cases out) auto
  from a have mk: "mkstemp_error env p = None"
    by (cases "mkstemp_error env p") (simp_all add: align_table_eq)
  from a mk have csv: "to_csv_error env p data = None"
    by (cases "to_csv_error env p data") (simp_all add: align_table_eq)
  from a mk csv have d: "dialign env data ''Speaker'' ''Utterance'' = Inr out"
    and s': "s' = s\<lparr>tmp_files :=
                     (if remove_error env p = None then tmp_files s
                      else (fresh_name (tmp_files s), data) # tmp_files s),
                   dialign_calls := dialign_calls s @
                     [\<lparr>csv_path = fresh_name (tmp_files s), table = data,
                       speaker_col = ''Speaker'', utterance_col = ''Utterance''\<rparr>]\<rparr>"
    by (simp_all add: align_table_eq)
  from s' have "dialign_calls s' = dialign_calls s @
       [\<lparr>csv_path = fresh_name (tmp_files s), table = data,
         speaker_col = ''Speaker'', utterance_col = ''Utterance''\<rparr>]"
    and "tmp_files s' = (if remove_error env p = None then tmp_files s
                     else (fresh_name (tmp_files s), data) # tmp_files s)"
    by simp_all
  with l mk csv d m out show thesis
    by (intro that [of c data si sd x1 x2 x3]) simp_all
qed

section \<open>The example run, task by task\<close>

lemma long_debate_turns: "build_turns_from_debate long_debate = Inr long_turns"
  by (simp add: build_turns_from_debate_def seed_utterance_def long_debate_def debate_of_def
      side_turns_def six_turns_def turn_def speaker_of_def long_turns_def)

lemma long_debate_score: "getitem_str long_debate ''comet score'' = Inr (PFloat (17 / 20))"
  by (simp add: long_debate_def debate_of_def)

lemma load_a: "load_record example_env file_a = Inr (PFloat (17 / 20), long_turns)"
  by (simp add: load_record_def example_env_def long_debate_turns long_debate_score)

lemma load_b:
  "load_record example_env file_b = Inl decode_error"
  by (simp add: load_record_def example_env_def file_a_def file_b_def)

lemma basename_a: "basename file_a = ''a.json''"
  by (simp add: basename_def file_a_def)

lemma basename_b: "basename file_b = ''b.json''"
  by (simp add: basename_def file_b_def)

lemma task_a:
  "task_body example_env s file_a =
     (Inr result_a,
      s\<lparr>dialign_calls := dialign_calls s @
          [\<lparr>csv_path = fresh_name (tmp_files s), table = long_turns,
            speaker_col = ''Speaker'', utterance_col = ''Utterance''\<rparr>]\<rparr>)"
proof -
  have "align_table example_env file_a long_turns s =
     (Inr metrics,
      s\<lparr>dialign_calls := dialign_calls s @
          [\<lparr>csv_path = fresh_name (tmp_files s), table = long_turns,
            speaker_col = ''Speaker'', utterance_col = ''Utterance''\<rparr>]\<rparr>)"
    by (simp add: align_table_eq) (simp add: example_env_def)
  then show ?thesis
    by (simp add: task_body_def load_a metrics_def collect_metrics_def basename_a result_a_def)
qed

lemma task_b:
  "task_body example_env s file_b = (Inl decode_error, s)"
  by (simp add: task_body_def load_b)

lemma process_a:
  "process_one_file example_env s file_a =
     (result_a,
      s\<lparr>dialign_calls := dialign_calls s @
          [\<lparr>csv_path = fresh_name (tmp_files s), table = long_turns,
            speaker_col = ''Speaker'', utterance_col = ''Utterance''\<rparr>]\<rparr>)"
  by (simp add: process_one_file_def task_a in_frame_def)

lemma process_b: "process_one_file example_env s file_b = (result_b, s)"
  by (simp add: process_one_file_def task_b in_frame_def error_record_def basename_b
      result_b_def format_exc_def decode_error_def)

section \<open>What a success record carries\<close>

lemma process_one_file_Success:
  assumes "process_one_file env s p = (Success f c e1 e2 ar nr ae ne ai, s')"
  shows "task_body env s p = (Inr (Success f c e1 e2 ar nr ae ne ai), s')"
proof (cases "task_body env s p")
  case (Pair r s'')
  with assms show ?thesis
    by (cases r) (simp_all add: process_one_file_def in_frame_def error_record_def)
qed

lemma collect_metrics_Inr:
  assumes "collect_metrics p c si sd = Inr (Success f c' e1 e2 ar nr ae ne ai)"
  shows "f = basename p" and "c' = c"
    and "getitem_str si ''ER'' = Inr e1" and "getitem_str si ''EE'' = Inr e2"
    and "bind (getitem_str sd ''Affirmative side'') (\<lambda>a. getitem_str a ''ER'') = Inr ar"
    and "bind (getitem_str sd ''Negative side'') (\<lambda>n. getitem_str n ''ER'') = Inr nr"
    and "bind (getitem_str sd ''Affirmative side'') (\<lambda>a. getitem_str a ''EE'') = Inr ae"
    and "bind (getitem_str sd ''Negative side'') (\<lambda>n. getitem_str n ''EE'') = Inr ne"
    and "bind (getitem_str sd ''Affirmative side'') (\<lambda>a. getitem_str a ''Initiated'') = Inr ai"
proof -
  let ?g = "\<lambda>side key. bind (getitem_str sd side) (\<lambda>a. getitem_str a key)"
  from assms obtain x1 where 1: "getitem_str si ''ER'' = Inr x1"
    by (cases "getitem_str si ''ER''") (simp_all add: collect_metrics_def)
  from assms 1 obtain x2 where 2: "getitem_str si ''EE'' = Inr x2"
    by (cases "getitem_str si ''EE''") (simp_all add: collect_metrics_def)
  from assms 1 2 obtain x3 where 3: "?g ''Affirmative side'' ''ER'' = Inr x3"
    by (cases "?g ''Affirmative side'' ''ER''") (simp_all add: collect_metrics_def)
  from assms 1 2 3 obtain x4 where 4: "?g ''Negative side'' ''ER'' = Inr x4"
    by (cases "?g ''Negative side'' ''ER''") (simp_all add: collect_metrics_def)
  from assms 1 2 3 4 obtain x5 where 5: "?g ''Affirmative side'' ''EE'' = Inr x5"
    by (cases "?g ''Affirmative side'' ''EE''") (simp_all add: collect_metrics_def)
  from assms 1 2 3 4 5 obtain x6 where 6: "?g ''Negative side'' ''EE'' = Inr x6"
    by (cases "?g ''Negative side'' ''EE''") (simp_all add: collect_metrics_def)
  from assms 1 2 3 4 5 6 obtain x7 where 7: "?g ''Affirmative side'' ''Initiated'' = Inr x7"
    by (cases "?g ''Affirmative side'' ''Initiated''") (simp_all add: collect_metrics_def)
  from assms 1 2 3 4 5 6 7
  have "Success (basename p) c x1 x2 x3 x4 x5 x6 x7 = Success f c' e1 e2 ar nr ae ne ai"
    by (simp add: collect_metrics_def)
  with 1 2 3 4 5 6 7 show "f = basename p" and "c' = c"
    and "getitem_str si ''ER'' = Inr e1" and "getitem_str si ''EE'' = Inr e2"
    and "?g ''Affirmative side'' ''ER'' = Inr ar" and "?g ''Negative side'' ''ER'' = Inr nr"
    and "?g ''Affirmative side'' ''EE'' = Inr ae" and "?g ''Negative side'' ''EE'' = Inr ne"
    and "?g ''Affirmative side'' ''Initiated'' = Inr ai"
    by simp_all
qed

text \<open>
  Claim C7. When a task returns a success record, \<^verbatim>\<open>dialign\<close> was called exactly once in
  it, on the table written from the file's turn sequence and with the column labels
  \<^verbatim>\<open>Speaker\<close> and \<^verbatim>\<open>Utterance\<close>. The record carries the file's name, the record's top-level
  score, the two global metrics ER and EE, ER and EE of both speakers, and the
  Affirmative side's \<^verbatim>\<open>Initiated\<close> metric, as that call returned them.
\<close>

theorem success_calls_dialign_once:
  assumes "process_one_file env s p = (Success f c e1 e2 ar nr ae ne ai, s')"
  shows "\<exists>raw d data si sd x1 x2 x3 t.
     open_read env p = Inr raw \<and> json_load env raw = Inr d \<and>
     build_turns_from_debate d = Inr data \<and>
     dialign_calls s' = dialign_calls s @
       [\<lparr>csv_path = t, table = data, speaker_col = ''Speaker'',
         utterance_col = ''Utterance''\<rparr>] \<and>
     dialign env data ''Speaker'' ''Utterance'' = Inr (si, sd, x1, x2, x3) \<and>
     f = basename p \<and> getitem_str d ''comet score'' = Inr c \<and>
     getitem_str si ''ER'' = Inr e1 \<and> getitem_str si ''EE'' = Inr e2 \<and>
     bind (getitem_str sd ''Affirmative side'') (\<lambda>a. getitem_str a ''ER'') = Inr ar \<and>
     bind (getitem_str sd ''Negative side'') (\<lambda>n. getitem_str n ''ER'') = Inr nr \<and>
     bind (getitem_str sd ''Affirmative side'') (\<lambda>a. getitem_str a ''EE'') = Inr ae \<and>
     bind (getitem_str sd ''Negative side'') (\<lambda>n. getitem_str n ''EE'') = Inr ne \<and>
     bind (getitem_str sd ''Affirmative side'') (\<lambda>a. getitem_str a ''Initiated'') = Inr ai"
proof -
  from assms have "task_body env s p = (Inr (Success f c e1 e2 ar nr ae ne ai), s')"
    by (rule process_one_file_Success)
  then obtain c' data si sd x1 x2 x3 where l: "load_record env p = Inr (c', data)"
    and d: "dialign env data ''Speaker'' ''Utterance'' = Inr (si, sd, x1, x2, x3)"
    and m: "collect_metrics p c' si sd = Inr (Success f c e1 e2 ar nr ae ne ai)"
    and calls: "dialign_calls s' = dialign_calls s @
       [\<lparr>csv_path = fresh_name (tmp_files s), table = data,
         speaker_col = ''Speaker'', utterance_col = ''Utterance''\<rparr>]"
    by (rule task_body_Inr)
  from l obtain raw dd where r: "open_read env p = Inr raw" "json_load env raw = Inr dd"
    "getitem_str dd ''comet score'' = Inr c'" "build_turns_from_debate dd = Inr data"
    by (rule load_record_Inr)
  note cm = collect_metrics_Inr [OF m]
  from r(3) cm(2) have score: "getitem_str dd ''comet score'' = Inr c" by simp
  from r(1,2,4) calls d cm(1) score cm(3-9) show ?thesis by blast
qed

theorem success_calls_dialign_once_witness:
  "process_one_file example_env no_tmp file_a =
     (result_a,
      \<lparr>tmp_files = [],
       dialign_calls = [\<lparr>csv_path = 1, table = long_turns, speaker_col = ''Speaker'',
                         utterance_col = ''Utterance''\<rparr>]\<rparr>) \<and>
   open_read example_env file_a = Inr ''<a.json>'' \<and>
   json_load example_env ''<a.json>'' = Inr long_debate \<and>
   build_turns_from_debate long_debate = Inr long_turns \<and>
   dialign example_env long_turns ''Speaker'' ''Utterance'' = Inr metrics"
proof -
  have p: "process_one_file example_env no_tmp file_a =
     (Success ''a.json'' (PFloat (17 / 20)) (PFloat (1 / 4)) (PFloat (1 / 2)) (PFloat (1 / 5))
       (PFloat (3 / 10)) (PFloat (2 / 5)) (PFloat (3 / 5)) (PInt 3),
      \<lparr>tmp_files = [],
       dialign_calls = [\<lparr>csv_path = 1, table = long_turns, speaker_col = ''Speaker'',
                         utterance_col = ''Utterance''\<rparr>]\<rparr>)"
    by (simp add: process_a no_tmp_def result_a_def fresh_name_def)
  have "open_read example_env file_a = Inr ''<a.json>''"
    and "json_load example_env ''<a.json>'' = Inr long_debate"
    and "dialign example_env long_turns ''Speaker'' ''Utterance'' = Inr metrics"
    by (simp_all add: example_env_def)
  with success_calls_dialign_once [OF p] p long_debate_turns show ?thesis
    by (simp add: result_a_def)
qed

section \<open>Properties of the batch\<close>

lemma collect_metrics_ok:
  assumes "collect_metrics p c si sd = Inr res"
  shows "ok res" and "file_of res = basename p"
proof -
  from assms obtain e1 e2 ar nr ae ne ai where "res = Success (basename p) c e1 e2 ar nr ae ne ai"
    unfolding collect_metrics_def bind_Inr_iff by blast
  then show "ok res" and "file_of res = basename p" by simp_all
qed

lemma task_body_ok:
  assumes "fst (task_body env s p) = Inr res"
  shows "ok res" and "file_of res = basename p"
proof -
  obtain s' where "task_body env s p = (Inr res, s')"
    using assms by (cases "task_body env s p") simp
  then obtain c data si sd x1 x2 x3 where "collect_metrics p c si sd = Inr res"
    by (rule task_body_Inr)
  then show "ok res" and "file_of res = basename p"
    by (rule collect_metrics_ok)+
qed

lemma process_one_file_ok:
  "ok (fst (process_one_file env s p)) \<longleftrightarrow> \<not> isl (fst (task_body env s p))"
proof (cases "fst (task_body env s p)")
  case (Inl e)
  then show ?thesis
    by (simp add: process_one_file_fst in_frame_def error_record_def)
next
  case (Inr res)
  with task_body_ok(1) [OF Inr] show ?thesis
    by (simp add: process_one_file_fst in_frame_def)
qed

lemma process_one_file_file:
  "file_of (fst (process_one_file env s p)) = basename p"
proof (cases "fst (task_body env s p)")
  case (Inl e)
  then show ?thesis
    by (simp add: process_one_file_fst in_frame_def error_record_def)
next
  case (Inr res)
  with task_body_ok(2) [OF Inr] show ?thesis
    by (simp add: process_one_file_fst in_frame_def)
qed

lemma process_one_file_failure:
  assumes "task_body env s p = (Inl e, s')"
  shows "process_one_file env s p =
     (Failure (basename p) (cls e @ '': '' @ msg e)
        (map (take 3) (chain e @ [''process_one_file'' # tb e])), s')"
  using assms by (simp add: process_one_file_def in_frame_def error_record_def format_exc_def)

lemma collect_all:
  assumes "\<forall>p\<in>set futs. result_error env p = None"
  shows "\<exists>s'. collect env s futs rs out =
     Inr (rs @ map (\<lambda>p. fst (process_one_file env s0 p)) futs,
          out @ map (\<lambda>p. status_line (fst (process_one_file env s0 p))) futs, s')"
  using assms
proof (induction futs arbitrary: s rs out)
  case Nil
  then show ?case by simp
next
  case (Cons fut futs)
  obtain res s1 where p: "process_one_file env s fut = (res, s1)"
    by (cases "process_one_file env s fut")
  then have res: "res = fst (process_one_file env s0 fut)"
    using process_one_file_state_free [of env s fut s0] by simp
  from Cons.prems have "\<forall>p\<in>set futs. result_error env p = None" by simp
  from Cons.IH [OF this, of s1 "rs @ [res]" "out @ [status_line res]"]
  obtain s' where "collect env s1 futs (rs @ [res]) (out @ [status_line res]) =
     Inr ((rs @ [res]) @ map (\<lambda>p. fst (process_one_file env s0 p)) futs,
          (out @ [status_line res]) @ map (\<lambda>p. status_line (fst (process_one_file env s0 p))) futs,
          s')"
    by blast
  with Cons.prems p res show ?case by simp
qed

lemma collect_crash:
  assumes "q \<in> set futs" and "result_error env q \<noteq> None"
  shows "\<exists>q' e. q' \<in> set futs \<and> result_error env q' = Some e \<and>
     collect env s futs rs out = Inl e"
  using assms
proof (induction futs arbitrary: s rs out)
  case Nil
  then show ?case by simp
next
  case (Cons fut futs)
  show ?case
  proof (cases "result_error env fut")
    case (Some e)
    then have "collect env s (fut # futs) rs out = Inl e" by simp
    with Some show ?thesis by auto
  next
    case None
    with Cons.prems have q: "q \<in> set futs" by auto
    obtain res s1 where p: "process_one_file env s fut = (res, s1)"
      by (cases "process_one_file env s fut")
    from Cons.IH [OF q Cons.prems(2), of s1 "rs @ [res]" "out @ [status_line res]"]
    obtain q' e where "q' \<in> set futs" "result_error env q' = Some e"
      "collect env s1 futs (rs @ [res]) (out @ [status_line res]) = Inl e"
      by blast
    with None p show ?thesis by auto
  qed
qed

lemma map_exn_Inr:
  "map_exn f xs = Inr ys \<Longrightarrow>
     length ys = length xs \<and> (\<forall>i<length xs. f (xs ! i) = Inr (ys ! i))"
proof (induction xs arbitrary: ys)
  case Nil
  then show ?case by simp
next
  case (Cons x xs)
  from Cons.prems obtain y ys' where y: "f x = Inr y" and ys': "map_exn f xs = Inr ys'"
    and ys: "ys = y # ys'"
    by (auto simp add: bind_Inr_iff)
  from Cons.IH [OF ys'] have len: "length ys' = length xs"
    and nth: "\<forall>i<length xs. f (xs ! i) = Inr (ys' ! i)"
    by simp_all
  have "f ((x # xs) ! i) = Inr (ys ! i)" if "i < length (x # xs)" for i
    using that y nth ys by (cases i) simp_all
  with len ys show ?case by simp
qed

lemma map_exn_total:
  "\<forall>x\<in>set xs. \<exists>y. f x = Inr y \<Longrightarrow> \<exists>ys. map_exn f xs = Inr ys"
proof (induction xs)
  case Nil
  then show ?case by simp
next
  case (Cons x xs)
  then obtain y ys where "f x = Inr y" "map_exn f xs = Inr ys" by auto
  then show ?case by simp
qed

lemma getitem_result_ok:
  assumes "ok r"
    and "k \<in> {''comet'', ''er'', ''ee'', ''aff_rep'', ''neg_rep'', ''aff_est'', ''neg_est'', ''aff_init''}"
  shows "\<exists>v. getitem_result r k = Inr v"
  using assms by (cases r) auto

lemma series_column:
  assumes "k \<in> {''comet'', ''er'', ''ee'', ''aff_rep'', ''neg_rep'', ''aff_est'', ''neg_est'', ''aff_init''}"
  shows "\<exists>ys. map_exn (\<lambda>r. getitem_result r k) (filter ok rs) = Inr ys"
proof (rule map_exn_total, rule ballI)
  fix x assume "x \<in> set (filter ok rs)"
  then have "ok x" by simp
  from getitem_result_ok [OF this assms] show "\<exists>y. getitem_result x k = Inr y" .
qed

lemma build_series_total: "\<exists>ser. build_series rs = Inr ser"
proof -
  obtain cs where 1: "map_exn (\<lambda>r. getitem_result r ''comet'') (filter ok rs) = Inr cs"
    using series_column [of "''comet''" rs] by auto
  obtain e1 where 2: "map_exn (\<lambda>r. getitem_result r ''er'') (filter ok rs) = Inr e1"
    using series_column [of "''er''" rs] by auto
  obtain e2 where 3: "map_exn (\<lambda>r. getitem_result r ''ee'') (filter ok rs) = Inr e2"
    using series_column [of "''ee''" rs] by auto
  obtain ar where 4: "map_exn (\<lambda>r. getitem_result r ''aff_rep'') (filter ok rs) = Inr ar"
    using series_column [of "''aff_rep''" rs] by auto
  obtain nr where 5: "map_exn (\<lambda>r. getitem_result r ''neg_rep'') (filter ok rs) = Inr nr"
    using series_column [of "''neg_rep''" rs] by auto
  obtain ae where 6: "map_exn (\<lambda>r. getitem_result r ''aff_est'') (filter ok rs) = Inr ae"
    using series_column [of "''aff_est''" rs] by auto
  obtain ne where 7: "map_exn (\<lambda>r. getitem_result r ''neg_est'') (filter ok rs) = Inr ne"
    using series_column [of "''neg_est''" rs] by auto
  obtain ai where 8: "map_exn (\<lambda>r. getitem_result r ''aff_init'') (filter ok rs) = Inr ai"
    using series_column [of "''aff_init''" rs] by auto
  show ?thesis
    by (simp add: build_series_def Let_def 1 2 3 4 5 6 7 8)
qed

lemma gather_files_Inr:
  assumes "gather_files env = Inr files"
  shows "\<exists>names. listdir env debate_path = Inr names \<and>
     files = map (os_path_join debate_path)
               (filter (\<lambda>f. isfile env (os_path_join debate_path f)) names)"
  using assms by (auto simp add: gather_files_def bind_Inr_iff)

lemma main_Inr:
  assumes "main env s = Inr out"
  obtains files rs printed s' ser where "gather_files env = Inr files"
    "collect env s (as_completed env files) [] [] = Inr (rs, printed, s')"
    "build_series rs = Inr ser"
    "out = \<lparr>results = rs, printed = printed, plotted = ser, final = s'\<rparr>"
proof -
  from assms obtain files where g: "gather_files env = Inr files"
    by (cases "gather_files env") (simp_all add: main_def)
  with assms obtain rs pr s' where c: "collect env s (as_completed env files) [] [] = Inr (rs, pr, s')"
    by (cases "collect env s (as_completed env files) [] []") (auto simp add: main_def)
  with assms g obtain ser where b: "build_series rs = Inr ser"
    by (cases "build_series rs") (simp_all add: main_def)
  with assms g c have "out = \<lparr>results = rs, printed = pr, plotted = ser, final = s'\<rparr>"
    by (simp add: main_def)
  with g c b show thesis by (rule that)
qed

lemma main_run:
  assumes g: "gather_files env = Inr files"
    and alive: "\<forall>p\<in>set (as_completed env files). result_error env p = None"
  shows "\<exists>out. main env s = Inr out \<and>
     results out = map (\<lambda>p. fst (process_one_file env s p)) (as_completed env files)"
proof -
  from collect_all [OF alive, of s "[]" "[]" s]
  obtain s' where c: "collect env s (as_completed env files) [] [] =
     Inr (map (\<lambda>p. fst (process_one_file env s p)) (as_completed env files),
          map (\<lambda>p. status_line (fst (process_one_file env s p))) (as_completed env files), s')"
    by auto
  obtain ser where
    "build_series (map (\<lambda>p. fst (process_one_file env s p)) (as_completed env files)) = Inr ser"
    using build_series_total by blast
  with g c show ?thesis by (simp add: main_def)
qed

lemma count_failures:
  assumes "mset rs = mset (map (\<lambda>p. fst (process_one_file env s p)) files)"
  shows "length (filter (\<lambda>r. \<not> ok r) rs) =
     length (filter (\<lambda>p. isl (fst (task_body env s p))) files)"
proof -
  let ?g = "\<lambda>p. fst (process_one_file env s p)"
  let ?bad = "\<lambda>r. \<not> ok r"
  have "mset (filter ?bad rs) = mset (filter ?bad (map ?g files))"
    by (simp only: mset_filter assms)
  then have "length (filter ?bad rs) = length (filter ?bad (map ?g files))"
    by (rule mset_eq_length)
  also have "filter ?bad (map ?g files) = map ?g (filter (\<lambda>p. isl (fst (task_body env s p))) files)"
    by (simp add: filter_map comp_def process_one_file_ok)
  finally show ?thesis by simp
qed

text \<open>
  Claim C1. When the directory can be listed, no worker dies and the pool completes every
  future once, in whatever order, the batch returns one record for each regular
  file that lies directly in the directory: as many records as files, each the record of
  one file's task, of which the error records are as many as the files whose processing
  raised and the success records are the rest.
\<close>

theorem batch_results:
  assumes "gather_files env = Inr files"
    and "mset (as_completed env files) = mset files"
    and "\<forall>p\<in>set files. result_error env p = None"
  shows "\<exists>out names. main env s = Inr out \<and>
     listdir env debate_path = Inr names \<and>
     files = map (os_path_join debate_path)
               (filter (\<lambda>f. isfile env (os_path_join debate_path f)) names) \<and>
     mset (results out) = mset (map (\<lambda>p. fst (process_one_file env s p)) files) \<and>
     mset (map file_of (results out)) = mset (map basename files) \<and>
     length (results out) = length files \<and>
     length (filter (\<lambda>r. \<not> ok r) (results out)) =
       length (filter (\<lambda>p. isl (fst (task_body env s p))) files) \<and>
     length (filter ok (results out)) =
       length files - length (filter (\<lambda>p. isl (fst (task_body env s p))) files)"
proof -
  from assms(2) have "set (as_completed env files) = set files"
    by (rule mset_eq_setD)
  with assms(3) have "\<forall>p\<in>set (as_completed env files). result_error env p = None"
    by simp
  from main_run [OF assms(1) this, of s] obtain out where m: "main env s = Inr out"
    and r: "results out = map (\<lambda>p. fst (process_one_file env s p)) (as_completed env files)"
    by blast
  from gather_files_Inr [OF assms(1)] obtain names where n: "listdir env debate_path = Inr names"
    "files = map (os_path_join debate_path)
               (filter (\<lambda>f. isfile env (os_path_join debate_path f)) names)"
    by blast
  from r assms(2) have ms: "mset (results out) = mset (map (\<lambda>p. fst (process_one_file env s p)) files)"
    by simp
  have "map file_of (map (\<lambda>p. fst (process_one_file env s p)) files) = map basename files"
    by (simp add: comp_def process_one_file_file)
  moreover have "mset (map file_of (results out)) =
     mset (map file_of (map (\<lambda>p. fst (process_one_file env s p)) files))"
    using ms by (metis mset_map)
  ultimately have names: "mset (map file_of (results out)) = mset (map basename files)"
    by (simp only:)
  from ms have len: "length (results out) = length files"
    using mset_eq_length by fastforce
  note fails = count_failures [OF ms]
  have "length (filter ok (results out)) + length (filter (\<lambda>r. \<not> ok r) (results out)) =
     length (results out)"
    by (rule sum_length_filter_compl)
  with fails len have oks: "length (filter ok (results out)) =
       length files - length (filter (\<lambda>p. isl (fst (task_body env s p))) files)"
    by simp
  from m n ms names len fails oks show ?thesis by blast
qed

section \<open>The example run as a batch\<close>

lemma gather_example: "gather_files example_env = Inr [file_a, file_b]"
  by (simp add: gather_files_def example_env_def debate_path_def os_path_join_def file_a_def
      file_b_def)

lemma series_example: "build_series [result_b, result_a] = Inr series_a"
  by (simp add: build_series_def result_a_def result_b_def series_a_def)

lemma collect_example:
  "collect example_env no_tmp [file_b, file_a] [] [] =
     Inr ([result_b, result_a], printed example_out, final example_out)"
proof -
  have "result_error example_env file_b = None" "result_error example_env file_a = None"
    by (simp_all add: example_env_def)
  then show ?thesis
    by (simp add: process_a process_b)
      (simp add: status_line_def result_a_def result_b_def example_out_def no_tmp_def
        call_a_def fresh_name_def)
qed

lemma main_example: "main example_env no_tmp = Inr example_out"
proof -
  have "as_completed example_env [file_a, file_b] = [file_b, file_a]"
    by (simp add: example_env_def)
  then have "main example_env no_tmp =
     bind (collect example_env no_tmp [file_b, file_a] [] []) (\<lambda>(rs, out, s').
     bind (build_series rs) (\<lambda>ser.
     Inr \<lparr>results = rs, printed = out, plotted = ser, final = s'\<rparr>))"
    by (simp only: main_def gather_example bind_Inr)
  also have "\<dots> = Inr \<lparr>results = [result_b, result_a], printed = printed example_out,
     plotted = series_a, final = final example_out\<rparr>"
    by (simp only: collect_example bind_Inr prod.case series_example)
  also have "\<dots> = Inr example_out"
    by (simp add: example_out_def)
  finally show ?thesis .
qed

theorem batch_results_witness:
  "gather_files example_env = Inr [file_a, file_b] \<and>
   listdir example_env debate_path = Inr [''a.json'', ''sub'', ''b.json''] \<and>
   as_completed example_env [file_a, file_b] = [file_b, file_a] \<and>
   main example_env no_tmp = Inr example_out \<and>
   results example_out = [result_b, result_a] \<and>
   length (filter (\<lambda>p. isl (fst (task_body example_env no_tmp p))) [file_a, file_b]) = 1 \<and>
   length (filter (\<lambda>r. \<not> ok r) (results example_out)) = 1 \<and>
   length (filter ok (results example_out)) = 1"
proof -
  have o: "as_completed example_env [file_a, file_b] = [file_b, file_a]"
    by (simp add: example_env_def)
  then have m: "mset (as_completed example_env [file_a, file_b]) = mset [file_a, file_b]"
    by simp
  have alive: "\<forall>p\<in>set [file_a, file_b]. result_error example_env p = None"
    by (simp add: example_env_def)
  have l: "listdir example_env debate_path = Inr [''a.json'', ''sub'', ''b.json'']"
    by (simp add: example_env_def debate_path_def)
  have f: "length (filter (\<lambda>p. isl (fst (task_body example_env no_tmp p))) [file_a, file_b]) = 1"
    by (simp add: task_a task_b)
  have r: "results example_out = [result_b, result_a]"
    by (simp add: example_out_def)
  from batch_results [OF gather_example m alive, of no_tmp]
  obtain out where "main example_env no_tmp = Inr out"
    and "length (filter (\<lambda>r. \<not> ok r) (results out)) =
       length (filter (\<lambda>p. isl (fst (task_body example_env no_tmp p))) [file_a, file_b])"
    and "length (filter ok (results out)) = length [file_a, file_b] -
       length (filter (\<lambda>p. isl (fst (task_body example_env no_tmp p))) [file_a, file_b])"
    by blast
  with main_example f
  have "length (filter (\<lambda>r. \<not> ok r) (results example_out)) = 1"
    and "length (filter ok (results example_out)) = 1"
    by simp_all
  with gather_example l o main_example r f show ?thesis by simp
qed

section \<open>The series built from the results\<close>

lemma ok_nth_filter: "i < length (filter ok rs) \<Longrightarrow> ok (filter ok rs ! i)"
  using nth_mem [of i "filter ok rs"] by simp

lemma getitem_result_Success:
  assumes "ok r"
    and "getitem_result r ''comet'' = Inr c" and "getitem_result r ''er'' = Inr e1"
    and "getitem_result r ''ee'' = Inr e2" and "getitem_result r ''aff_rep'' = Inr ar"
    and "getitem_result r ''neg_rep'' = Inr nr" and "getitem_result r ''aff_est'' = Inr ae"
    and "getitem_result r ''neg_est'' = Inr ne" and "getitem_result r ''aff_init'' = Inr ai"
  shows "r = Success (file_of r) c e1 e2 ar nr ae ne ai"
  using assms by (cases r) simp_all

lemma build_series_Inr:
  assumes "build_series rs = Inr ser"
  shows "map_exn (\<lambda>r. getitem_result r ''comet'') (filter ok rs) = Inr (comet_scores ser)"
    and "map_exn (\<lambda>r. getitem_result r ''er'') (filter ok rs) = Inr (er ser)"
    and "map_exn (\<lambda>r. getitem_result r ''ee'') (filter ok rs) = Inr (ee ser)"
    and "map_exn (\<lambda>r. getitem_result r ''aff_rep'') (filter ok rs) = Inr (affirmative_repetitions ser)"
    and "map_exn (\<lambda>r. getitem_result r ''neg_rep'') (filter ok rs) = Inr (negative_repetitions ser)"
    and "map_exn (\<lambda>r. getitem_result r ''aff_est'') (filter ok rs) = Inr (affirmative_establishments ser)"
    and "map_exn (\<lambda>r. getitem_result r ''neg_est'') (filter ok rs) = Inr (negative_establishments ser)"
    and "map_exn (\<lambda>r. getitem_result r ''aff_init'') (filter ok rs) = Inr (affirmative_initiated ser)"
proof -
  from assms obtain cs e1 e2 ar nr ae ne ai where
    "map_exn (\<lambda>r. getitem_result r ''comet'') (filter ok rs) = Inr cs"
    "map_exn (\<lambda>r. getitem_result r ''er'') (filter ok rs) = Inr e1"
    "map_exn (\<lambda>r. getitem_result r ''ee'') (filter ok rs) = Inr e2"
    "map_exn (\<lambda>r. getitem_result r ''aff_rep'') (filter ok rs) = Inr ar"
    "map_exn (\<lambda>r. getitem_result r ''neg_rep'') (filter ok rs) = Inr nr"
    "map_exn (\<lambda>r. getitem_result r ''aff_est'') (filter ok rs) = Inr ae"
    "map_exn (\<lambda>r. getitem_result r ''neg_est'') (filter ok rs) = Inr ne"
    "map_exn (\<lambda>r. getitem_result r ''aff_init'') (filter ok rs) = Inr ai"
    "ser = \<lparr>comet_scores = cs, er = e1, ee = e2, affirmative_repetitions = ar,
           negative_repetitions = nr, affirmative_establishments = ae,
           negative_establishments = ne, affirmative_initiated = ai\<rparr>"
    unfolding build_series_def Let_def bind_Inr_iff by blast
  then show "map_exn (\<lambda>r. getitem_result r ''comet'') (filter ok rs) = Inr (comet_scores ser)"
    and "map_exn (\<lambda>r. getitem_result r ''er'') (filter ok rs) = Inr (er ser)"
    and "map_exn (\<lambda>r. getitem_result r ''ee'') (filter ok rs) = Inr (ee ser)"
    and "map_exn (\<lambda>r. getitem_result r ''aff_rep'') (filter ok rs) = Inr (affirmative_repetitions ser)"
    and "map_exn (\<lambda>r. getitem_result r ''neg_rep'') (filter ok rs) = Inr (negative_repetitions ser)"
    and "map_exn (\<lambda>r. getitem_result r ''aff_est'') (filter ok rs) = Inr (affirmative_establishments ser)"
    and "map_exn (\<lambda>r. getitem_result r ''neg_est'') (filter ok rs) = Inr (negative_establishments ser)"
    and "map_exn (\<lambda>r. getitem_result r ''aff_init'') (filter ok rs) = Inr (affirmative_initiated ser)"
    by simp_all
qed

text \<open>
  Claim C6. Every series that \<^verbatim>\<open>main\<close> builds (the quality score and each metric) is as long
  as the list of success records, and for every index the success record at that index
  is made of the elements of the series at that index: the series are aligned with each
  other and with the success records.
\<close>

theorem series_aligned:
  assumes "main env s = Inr out"
  shows "length (comet_scores (plotted out)) = length (filter ok (results out)) \<and>
     length (er (plotted out)) = length (filter ok (results out)) \<and>
     length (ee (plotted out)) = length (filter ok (results out)) \<and>
     length (affirmative_repetitions (plotted out)) = length (filter ok (results out)) \<and>
     length (negative_repetitions (plotted out)) = length (filter ok (results out)) \<and>
     length (affirmative_establishments (plotted out)) = length (filter ok (results out)) \<and>
     length (negative_establishments (plotted out)) = length (filter ok (results out)) \<and>
     length (affirmative_initiated (plotted out)) = length (filter ok (results out)) \<and>
     (\<forall>i<length (filter ok (results out)).
        filter ok (results out) ! i =
          Success (file_of (filter ok (results out) ! i))
            (comet_scores (plotted out) ! i) (er (plotted out) ! i) (ee (plotted out) ! i)
            (affirmative_repetitions (plotted out) ! i) (negative_repetitions (plotted out) ! i)
            (affirmative_establishments (plotted out) ! i)
            (negative_establishments (plotted out) ! i)
            (affirmative_initiated (plotted out) ! i))"
proof -
  from assms obtain rs ser where b: "build_series rs = Inr ser"
    and rs: "results out = rs" and ser: "plotted out = ser"
    by (rule main_Inr) simp
  note cols = build_series_Inr [OF b]
  note c1 = map_exn_Inr [OF cols(1)] and c2 = map_exn_Inr [OF cols(2)]
    and c3 = map_exn_Inr [OF cols(3)] and c4 = map_exn_Inr [OF cols(4)]
    and c5 = map_exn_Inr [OF cols(5)] and c6 = map_exn_Inr [OF cols(6)]
    and c7 = map_exn_Inr [OF cols(7)] and c8 = map_exn_Inr [OF cols(8)]
  have "filter ok rs ! i =
          Success (file_of (filter ok rs ! i))
            (comet_scores ser ! i) (er ser ! i) (ee ser ! i)
            (affirmative_repetitions ser ! i) (negative_repetitions ser ! i)
            (affirmative_establishments ser ! i) (negative_establishments ser ! i)
            (affirmative_initiated ser ! i)"
    if i: "i < length (filter ok rs)" for i
  proof (rule getitem_result_Success)
    show "ok (filter ok rs ! i)" using i by (rule ok_nth_filter)
    show "getitem_result (filter ok rs ! i) ''comet'' = Inr (comet_scores ser ! i)"
      using c1 i by blast
    show "getitem_result (filter ok rs ! i) ''er'' = Inr (er ser ! i)"
      using c2 i by blast
    show "getitem_result (filter ok rs ! i) ''ee'' = Inr (ee ser ! i)"
      using c3 i by blast
    show "getitem_result (filter ok rs ! i) ''aff_rep'' = Inr (affirmative_repetitions ser ! i)"
      using c4 i by blast
    show "getitem_result (filter ok rs ! i) ''neg_rep'' = Inr (negative_repetitions ser ! i)"
      using c5 i by blast
    show "getitem_result (filter ok rs ! i) ''aff_est'' = Inr (affirmative_establishments ser ! i)"
      using c6 i by blast
    show "getitem_result (filter ok rs ! i) ''neg_est'' = Inr (negative_establishments ser ! i)"
      using c7 i by blast
    show "getitem_result (filter ok rs ! i) ''aff_init'' = Inr (affirmative_initiated ser ! i)"
      using c8 i by blast
  qed
  with c1 c2 c3 c4 c5 c6 c7 c8 show ?thesis
    unfolding rs ser by blast
qed

theorem series_aligned_witness:
  "main example_env no_tmp = Inr example_out \<and>
   filter ok (results example_out) = [result_a] \<and>
   plotted example_out = series_a \<and>
   result_a =
     Success ''a.json'' (comet_scores series_a ! 0) (er series_a ! 0) (ee series_a ! 0)
       (affirmative_repetitions series_a ! 0) (negative_repetitions series_a ! 0)
       (affirmative_establishments series_a ! 0) (negative_establishments series_a ! 0)
       (affirmative_initiated series_a ! 0)"
proof -
  have f: "filter ok (results example_out) = [result_a]"
    by (simp add: example_out_def result_a_def result_b_def)
  have p: "plotted example_out = series_a"
    by (simp add: example_out_def)
  have n: "file_of result_a = ''a.json''"
    by (simp add: result_a_def)
  from series_aligned [OF main_example] have
    "\<forall>i<length (filter ok (results example_out)).
        filter ok (results example_out) ! i =
          Success (file_of (filter ok (results example_out) ! i))
            (comet_scores (plotted example_out) ! i) (er (plotted example_out) ! i)
            (ee (plotted example_out) ! i)
            (affirmative_repetitions (plotted example_out) ! i)
            (negative_repetitions (plotted example_out) ! i)
            (affirmative_establishments (plotted example_out) ! i)
            (negative_establishments (plotted example_out) ! i)
            (affirmative_initiated (plotted example_out) ! i)"
    by blast
  from this [rule_format, of 0] f p n main_example show ?thesis
    by simp
qed

section \<open>A worker that dies\<close>

lemma process_one_file_pool_free:
  "process_one_file (env\<lparr>result_error := c\<rparr>) s p = process_one_file env s p"
proof -
  have a: "align_table (env\<lparr>result_error := c\<rparr>) p data s' = align_table env p data s'"
    for data s'
    by (simp add: align_table_eq cong: option.case_cong)
  have l: "load_record (env\<lparr>result_error := c\<rparr>) p = load_record env p"
    by (simp add: load_record_def)
  show ?thesis
    by (simp only: process_one_file_def task_body_def a l)
qed

lemma gather_files_pool_free: "gather_files (env\<lparr>result_error := c\<rparr>) = gather_files env"
  by (simp add: gather_files_def)

text \<open>
  Claim C9 says that a worker that dies without returning a record shows up as an error
  record for its file. It does not: \<^verbatim>\<open>fut.result()\<close> raises in the loop of \<^verbatim>\<open>main\<close>, which
  has no handler, so the batch ends with that exception and returns no records. In the
  example run with the worker of the first file dead, \<^verbatim>\<open>main\<close> raises.
\<close>

theorem worker_crash_aborts_counterexample:
  "gather_files crash_env = Inr [file_a, file_b] \<and>
   result_error crash_env file_a = Some broken_pool \<and>
   main crash_env no_tmp = Inl broken_pool"
proof -
  have g: "gather_files crash_env = Inr [file_a, file_b]"
    by (simp add: crash_env_def gather_files_pool_free gather_example)
  have o: "as_completed crash_env [file_a, file_b] = [file_b, file_a]"
    by (simp add: crash_env_def example_env_def)
  have a: "result_error crash_env file_a = Some broken_pool"
    by (simp add: crash_env_def)
  have b: "result_error crash_env file_b = None"
    by (simp add: crash_env_def file_a_def file_b_def)
  have p: "process_one_file crash_env no_tmp file_b = (result_b, no_tmp)"
    by (simp add: crash_env_def process_one_file_pool_free process_b)
  have "collect crash_env no_tmp [file_b, file_a] [] [] = Inl broken_pool"
    by (simp add: a b p)
  with g o have "main crash_env no_tmp = Inl broken_pool"
    by (simp only: main_def bind_Inr bind_Inl)
  with g a show ?thesis by simp
qed

text \<open>
  Claim C9, amended. When the worker of a discovered file dies, \<^verbatim>\<open>main\<close> raises the
  exception of a dead worker and returns nothing: no record for that file, and none
  for the others.
\<close>

theorem worker_crash_aborts:
  assumes "gather_files env = Inr files"
    and "mset (as_completed env files) = mset files"
    and "p \<in> set files" and "result_error env p = Some e"
  shows "\<exists>q e'. q \<in> set files \<and> result_error env q = Some e' \<and> main env s = Inl e'"
proof -
  from assms(2) have eq: "set (as_completed env files) = set files"
    by (rule mset_eq_setD)
  with assms(3) have "p \<in> set (as_completed env files)" by simp
  moreover from assms(4) have "result_error env p \<noteq> None" by simp
  ultimately obtain q e' where q: "q \<in> set (as_completed env files)"
    and e': "result_error env q = Some e'"
    and c: "collect env s (as_completed env files) [] [] = Inl e'"
    using collect_crash [of p "as_completed env files" env s "[]" "[]"] by blast
  from assms(1) c have "main env s = Inl e'"
    by (simp only: main_def bind_Inr bind_Inl)
  with q e' eq show ?thesis by blast
qed

theorem worker_crash_aborts_witness:
  "gather_files crash_env = Inr [file_a, file_b] \<and>
   mset (as_completed crash_env [file_a, file_b]) = mset [file_a, file_b] \<and>
   file_a \<in> set [file_a, file_b] \<and>
   result_error crash_env file_a = Some broken_pool \<and>
   result_error crash_env file_b = None \<and>
   main crash_env no_tmp = Inl broken_pool"
proof -
  have g: "gather_files crash_env = Inr [file_a, file_b]"
    by (simp add: crash_env_def gather_files_pool_free gather_example)
  have o: "mset (as_completed crash_env [file_a, file_b]) = mset [file_a, file_b]"
    by (simp add: crash_env_def example_env_def)
  have m: "file_a \<in> set [file_a, file_b]" by simp
  have a: "result_error crash_env file_a = Some broken_pool"
    by (simp add: crash_env_def)
  have b: "result_error crash_env file_b = None"
    by (simp add: crash_env_def file_a_def file_b_def)
  from worker_crash_aborts [OF g o m a, of no_tmp]
  obtain q e' where "q \<in> set [file_a, file_b]" "result_error crash_env q = Some e'"
    "main crash_env no_tmp = Inl e'"
    by blast
  with a b have "main crash_env no_tmp = Inl broken_pool" by auto
  with g o m a b show ?thesis by simp
qed

section \<open>The temporary table\<close>

lemma process_one_file_snd: "snd (process_one_file env s p) = snd (task_body env s p)"
  by (cases "task_body env s p"; cases "fst (task_body env s p)")
    (simp_all add: process_one_file_def in_frame_def)

lemma task_body_snd:
  "snd (task_body env s p) =
     (case load_record env p of
        Inl e \<Rightarrow> s
      | Inr (c, data) \<Rightarrow> snd (align_table env p data s))"
  by (simp add: task_body_def split: sum.splits prod.splits)

lemma task_tmp_files:
  assumes rm: "remove_error env p = None"
    and csv: "\<forall>c data. load_record env p = Inr (c, data) \<longrightarrow> to_csv_error env p data = None"
  shows "tmp_files (snd (process_one_file env s p)) = tmp_files s"
proof (cases "load_record env p")
  case (Inl e)
  then show ?thesis by (simp add: process_one_file_snd task_body_snd)
next
  case (Inr cd)
  obtain c data where cd: "cd = (c, data)" by (cases cd)
  with Inr csv have w: "to_csv_error env p data = None" by simp
  have "tmp_files (snd (align_table env p data s)) = tmp_files s"
    by (cases "mkstemp_error env p") (simp_all add: align_table_eq w rm)
  with Inr cd show ?thesis by (simp add: process_one_file_snd task_body_snd)
qed

lemma collect_tmp_files:
  assumes "\<forall>p\<in>set futs. \<forall>s0. tmp_files (snd (process_one_file env s0 p)) = tmp_files s0"
    and "collect env s futs rs out = Inr (rs', out', s')"
  shows "tmp_files s' = tmp_files s"
  using assms
proof (induction futs arbitrary: s rs out)
  case Nil
  then show ?case by simp
next
  case (Cons fut futs)
  obtain res s1 where p: "process_one_file env s fut = (res, s1)"
    by (cases "process_one_file env s fut")
  from Cons.prems(1) have "tmp_files (snd (process_one_file env s fut)) = tmp_files s"
    by simp
  with p have s1: "tmp_files s1 = tmp_files s" by simp
  from Cons.prems(2) p have "collect env s1 futs (rs @ [res]) (out @ [status_line res]) =
     Inr (rs', out', s')"
    by (cases "result_error env fut") simp_all
  moreover from Cons.prems(1)
  have "\<forall>p\<in>set futs. \<forall>s0. tmp_files (snd (process_one_file env s0 p)) = tmp_files s0"
    by simp
  ultimately have "tmp_files s' = tmp_files s1" by (rule Cons.IH [rotated])
  with s1 show ?case by simp
qed

text \<open>
  Claim C5 says that no temporary table outlives the run. The removal is best effort: an
  exception of \<^verbatim>\<open>os.remove\<close> is dropped and the table stays. In the example run with a
  removal that fails, the task of the first file succeeds and leaves its table behind,
  and the table is still there when \<^verbatim>\<open>main\<close> has built its series.
\<close>

theorem tmp_file_left_counterexample:
  "remove_error leak_env file_a = Some (raise ''PermissionError'' ''[Errno 13] Permission denied'') \<and>
   process_one_file leak_env no_tmp file_a =
     (result_a, \<lparr>tmp_files = [(1, long_turns)], dialign_calls = [call_a]\<rparr>) \<and>
   main leak_env no_tmp =
     Inr (example_out\<lparr>final := \<lparr>tmp_files = [(1, long_turns)], dialign_calls = [call_a]\<rparr>\<rparr>)"
proof -
  have l: "load_record leak_env p = load_record example_env p" for p
    by (simp add: load_record_def leak_env_def)
  have pa: "process_one_file leak_env s file_a =
     (result_a,
      s\<lparr>tmp_files := (fresh_name (tmp_files s), long_turns) # tmp_files s,
        dialign_calls := dialign_calls s @
          [\<lparr>csv_path = fresh_name (tmp_files s), table = long_turns,
            speaker_col = ''Speaker'', utterance_col = ''Utterance''\<rparr>]\<rparr>)" for s
  proof -
    have "align_table leak_env file_a long_turns s =
     (Inr metrics,
      s\<lparr>tmp_files := (fresh_name (tmp_files s), long_turns) # tmp_files s,
        dialign_calls := dialign_calls s @
          [\<lparr>csv_path = fresh_name (tmp_files s), table = long_turns,
            speaker_col = ''Speaker'', utterance_col = ''Utterance''\<rparr>]\<rparr>)"
      by (simp add: align_table_eq) (simp add: leak_env_def example_env_def)
    then show ?thesis
      by (simp add: process_one_file_def task_body_def l load_a metrics_def collect_metrics_def
          basename_a result_a_def in_frame_def)
  qed
  have pb: "process_one_file leak_env s file_b = (result_b, s)" for s
    by (simp add: process_one_file_def task_body_def l load_b in_frame_def error_record_def
        basename_b result_b_def format_exc_def decode_error_def)
  have g: "gather_files leak_env = Inr [file_a, file_b]"
    using gather_example by (simp add: gather_files_def leak_env_def)
  have o: "as_completed leak_env [file_a, file_b] = [file_b, file_a]"
    by (simp add: leak_env_def example_env_def)
  have alive: "result_error leak_env file_b = None" "result_error leak_env file_a = None"
    by (simp_all add: leak_env_def example_env_def)
  have c: "collect leak_env no_tmp [file_b, file_a] [] [] =
     Inr ([result_b, result_a], printed example_out,
          \<lparr>tmp_files = [(1, long_turns)], dialign_calls = [call_a]\<rparr>)"
    using alive
    by (simp add: pa pb)
      (simp add: status_line_def result_a_def result_b_def example_out_def no_tmp_def
        call_a_def fresh_name_def)
  have "main leak_env no_tmp =
     Inr \<lparr>results = [result_b, result_a], printed = printed example_out, plotted = series_a,
          final = \<lparr>tmp_files = [(1, long_turns)], dialign_calls = [call_a]\<rparr>\<rparr>"
    by (simp only: main_def g o c bind_Inr prod.case series_example)
  then have m: "main leak_env no_tmp =
     Inr (example_out\<lparr>final := \<lparr>tmp_files = [(1, long_turns)], dialign_calls = [call_a]\<rparr>\<rparr>)"
    by (simp add: example_out_def)
  have r: "remove_error leak_env file_a =
     Some (raise ''PermissionError'' ''[Errno 13] Permission denied'')"
    by (simp add: leak_env_def)
  have "process_one_file leak_env no_tmp file_a =
     (result_a, \<lparr>tmp_files = [(1, long_turns)], dialign_calls = [call_a]\<rparr>)"
    by (simp add: pa) (simp add: no_tmp_def call_a_def fresh_name_def)
  with r m show ?thesis by simp
qed

text \<open>
  Claim C5, amended. In a run where no worker dies and, for every file, neither the
  writing of the table nor its removal fails, every task leaves the temporary files as
  it found them, whether it returns a success record or an error record, and so does
  the run.
\<close>

theorem tmp_files_removed:
  assumes "gather_files env = Inr files"
    and "mset (as_completed env files) = mset files"
    and "\<forall>p\<in>set files. result_error env p = None"
    and "\<forall>p\<in>set files. remove_error env p = None"
    and "\<forall>p\<in>set files. \<forall>c data.
           load_record env p = Inr (c, data) \<longrightarrow> to_csv_error env p data = None"
  shows "\<exists>out. main env s = Inr out \<and> tmp_files (final out) = tmp_files s \<and>
     (\<forall>p\<in>set files. \<forall>s0. tmp_files (snd (process_one_file env s0 p)) = tmp_files s0)"
proof -
  from assms(2) have eq: "set (as_completed env files) = set files"
    by (rule mset_eq_setD)
  have task: "\<forall>p\<in>set files. \<forall>s0. tmp_files (snd (process_one_file env s0 p)) = tmp_files s0"
    using assms(4,5) task_tmp_files by blast
  from assms(3) eq have "\<forall>p\<in>set (as_completed env files). result_error env p = None"
    by simp
  from main_run [OF assms(1) this, of s] obtain out where m: "main env s = Inr out"
    by blast
  then obtain files' rs pr s' ser where g: "gather_files env = Inr files'"
    and c: "collect env s (as_completed env files') [] [] = Inr (rs, pr, s')"
    and out: "out = \<lparr>results = rs, printed = pr, plotted = ser, final = s'\<rparr>"
    by (rule main_Inr)
  from g assms(1) have "files' = files" by simp
  with c have c': "collect env s (as_completed env files) [] [] = Inr (rs, pr, s')" by simp
  from task eq
  have "\<forall>p\<in>set (as_completed env files). \<forall>s0.
     tmp_files (snd (process_one_file env s0 p)) = tmp_files s0"
    by simp
  from collect_tmp_files [OF this c'] out have "tmp_files (final out) = tmp_files s"
    by simp
  with m task show ?thesis by blast
qed


theorem tmp_files_removed_witness:
  "gather_files failing_dialign_env = Inr [file_a, file_b] \<and>
   mset (as_completed failing_dialign_env [file_a, file_b]) = mset [file_a, file_b] \<and>
   remove_error failing_dialign_env file_a = None \<and>
   process_one_file failing_dialign_env no_tmp file_a =
     (Failure ''a.json'' ''ValueError: no shared expressions''
        [[''process_one_file'', ''dialign'']],
      \<lparr>tmp_files = [], dialign_calls = [call_a]\<rparr>) \<and>
   (\<exists>out. main failing_dialign_env no_tmp = Inr out \<and> tmp_files (final out) = [])"
proof -
  have g: "gather_files failing_dialign_env = Inr [file_a, file_b]"
    using gather_example by (simp add: gather_files_def failing_dialign_env_def)
  have o: "mset (as_completed failing_dialign_env [file_a, file_b]) = mset [file_a, file_b]"
    by (simp add: failing_dialign_env_def example_env_def)
  have alive: "\<forall>p\<in>set [file_a, file_b]. result_error failing_dialign_env p = None"
    by (simp add: failing_dialign_env_def example_env_def)
  have rm: "\<forall>p\<in>set [file_a, file_b]. remove_error failing_dialign_env p = None"
    by (simp add: failing_dialign_env_def example_env_def)
  have csv: "\<forall>p\<in>set [file_a, file_b]. \<forall>c data.
     load_record failing_dialign_env p = Inr (c, data) \<longrightarrow>
     to_csv_error failing_dialign_env p data = None"
    by (simp add: failing_dialign_env_def example_env_def)
  have l: "load_record failing_dialign_env file_a = Inr (PFloat (17 / 20), long_turns)"
    using load_a by (simp add: load_record_def failing_dialign_env_def)
  have "align_table failing_dialign_env file_a long_turns no_tmp =
     (Inl alignment_error, \<lparr>tmp_files = [], dialign_calls = [call_a]\<rparr>)"
    by (simp add: align_table_eq)
      (simp add: failing_dialign_env_def example_env_def no_tmp_def call_a_def fresh_name_def)
  then have p: "process_one_file failing_dialign_env no_tmp file_a =
     (Failure ''a.json'' ''ValueError: no shared expressions''
        [[''process_one_file'', ''dialign'']],
      \<lparr>tmp_files = [], dialign_calls = [call_a]\<rparr>)"
    by (simp add: process_one_file_def task_body_def l in_frame_def error_record_def
        basename_a format_exc_def alignment_error_def)
  from tmp_files_removed [OF g o alive rm csv, of no_tmp]
  obtain out where "main failing_dialign_env no_tmp = Inr out"
    and "tmp_files (final out) = tmp_files no_tmp"
    by blast
  then have "\<exists>out. main failing_dialign_env no_tmp = Inr out \<and> tmp_files (final out) = []"
    by (simp add: no_tmp_def)
  moreover from rm have "remove_error failing_dialign_env file_a = None" by simp
  ultimately show ?thesis using g o p by simp
qed

section \<open>A task that raises\<close>

lemma process_one_file_cong:
  assumes "open_read env' p = open_read env p" and "json_load env' = json_load env"
    and "mkstemp_error env' p = mkstemp_error env p"
    and "to_csv_error env' p = to_csv_error env p" and "dialign env' = dialign env"
  shows "fst (process_one_file env' s' p) = fst (process_one_file env s p)"
proof -
  have "fst (task_body env' s' p) = fst (task_body env s p)"
    using assms by (rule task_body_cong)
  then show ?thesis by (simp only: process_one_file_fst)
qed

lemma task_body_raises:
  assumes "open_read env p = Inl e \<or>
     (\<exists>raw. open_read env p = Inr raw \<and>
       (json_load env raw = Inl e \<or>
        (\<exists>d. json_load env raw = Inr d \<and>
          (getitem_str d ''comet score'' = Inl e \<or>
           (\<exists>c. getitem_str d ''comet score'' = Inr c \<and>
             (build_turns_from_debate d = Inl e \<or>
              (\<exists>data. build_turns_from_debate d = Inr data \<and>
                (mkstemp_error env p = Some e \<or>
                 mkstemp_error env p = None \<and>
                 (to_csv_error env p data = Some e \<or>
                  to_csv_error env p data = None \<and>
                  (dialign env data ''Speaker'' ''Utterance'' = Inl e \<or>
                   (\<exists>si sd x1 x2 x3.
                      dialign env data ''Speaker'' ''Utterance'' = Inr (si, sd, x1, x2, x3) \<and>
                      collect_metrics p c si sd = Inl e)))))))))))"
  shows "fst (task_body env s p) = Inl e"
  using assms
  by (auto simp add: task_body_fst load_record_def)

lemma raised_is_caught:
  assumes "fst (task_body env s p) = Inl e"
  shows "fst (process_one_file env s p) =
     Failure (basename p) (cls e @ '': '' @ msg e)
       (map (take 3) (chain e @ [''process_one_file'' # tb e]))"
proof -
  obtain s' where "task_body env s p = (Inl e, s')"
    using assms by (cases "task_body env s p") simp
  from process_one_file_failure [OF this] show ?thesis by simp
qed


text \<open>
  Claim C2 says that the error record carries a trace bounded to a fixed number of
  frames. The limit of \<^verbatim>\<open>format_exc(limit=3)\<close> holds for each exception of a chain, not
  for the trace: when the alignment routine raises an exception from another one it
  caught, the trace of the error record has five frames.
\<close>

theorem trace_frames_counterexample:
  "dialign chained_env long_turns ''Speaker'' ''Utterance'' = Inl chained_error \<and>
   fst (process_one_file chained_env no_tmp file_a) =
     Failure ''a.json'' ''RuntimeError: alignment failed''
       [[''run'', ''read_table''], [''process_one_file'', ''dialign'', ''run'']] \<and>
   length (concat [[''run'', ''read_table''], [''process_one_file'', ''dialign'', ''run'']]) = 5"
proof -
  have d: "dialign chained_env long_turns ''Speaker'' ''Utterance'' = Inl chained_error"
    by (simp add: chained_env_def)
  have l: "load_record chained_env file_a = Inr (PFloat (17 / 20), long_turns)"
    using load_a by (simp add: load_record_def chained_env_def)
  have "mkstemp_error chained_env file_a = None"
    and "to_csv_error chained_env file_a long_turns = None"
    by (simp_all add: chained_env_def example_env_def)
  with d l have "fst (task_body chained_env no_tmp file_a) = Inl chained_error"
    by (simp add: task_body_fst)
  from raised_is_caught [OF this] have
    "fst (process_one_file chained_env no_tmp file_a) =
     Failure ''a.json'' ''RuntimeError: alignment failed''
       [[''run'', ''read_table''], [''process_one_file'', ''dialign'', ''run'']]"
    by (simp add: basename_a chained_error_def)
  with d show ?thesis by simp
qed

text \<open>
  Claim C2, amended. Take a run in which no worker dies, and a discovered file. Whatever
  raises while the file is processed (opening or reading it, parsing it, a field that
  is missing from the record, the creation or the writing of the temporary table, the
  alignment routine, a metric that is missing from its result), the handler of the
  task returns an error record with the file's name, the cause as the class of the
  exception and its message, and a trace that holds at most three frames for each
  exception of the chain: the exception itself and those it was raised from. The batch
  does not raise: \<^verbatim>\<open>main\<close> returns, its records are those of the single tasks and the
  record of the file is among them. The record of a file depends on nothing but the
  calls made for that file, so neither the state other tasks leave nor what happens to
  another file changes it.
\<close>

theorem failure_is_isolated:
  assumes "gather_files env = Inr files"
    and "mset (as_completed env files) = mset files"
    and "\<forall>q\<in>set files. result_error env q = None"
    and "p \<in> set files"
  shows "(\<forall>e.
        open_read env p = Inl e \<or>
        (\<exists>raw. open_read env p = Inr raw \<and>
          (json_load env raw = Inl e \<or>
           (\<exists>d. json_load env raw = Inr d \<and>
             (getitem_str d ''comet score'' = Inl e \<or>
              (\<exists>c. getitem_str d ''comet score'' = Inr c \<and>
                (build_turns_from_debate d = Inl e \<or>
                 (\<exists>data. build_turns_from_debate d = Inr data \<and>
                   (mkstemp_error env p = Some e \<or>
                    mkstemp_error env p = None \<and>
                    (to_csv_error env p data = Some e \<or>
                     to_csv_error env p data = None \<and>
                     (dialign env data ''Speaker'' ''Utterance'' = Inl e \<or>
                      (\<exists>si sd x1 x2 x3.
                         dialign env data ''Speaker'' ''Utterance'' = Inr (si, sd, x1, x2, x3) \<and>
                         collect_metrics p c si sd = Inl e))))))))))) \<longrightarrow>
        (\<exists>tr. fst (process_one_file env s p) =
                Failure (basename p) (cls e @ '': '' @ msg e) tr \<and>
              tr = map (take 3) (chain e @ [''process_one_file'' # tb e]) \<and>
              length tr = Suc (length (chain e)) \<and>
              (\<forall>frames\<in>set tr. length frames \<le> 3))) \<and>
     (\<forall>raw kvs. open_read env p = Inr raw \<and> json_load env raw = Inr (PDict kvs) \<and>
        map_of kvs ''comet score'' = None \<longrightarrow>
        fst (process_one_file env s p) =
          Failure (basename p) (''KeyError: '' @ [CHR 0x27] @ ''comet score'' @ [CHR 0x27])
            [[''process_one_file'']]) \<and>
     (\<exists>out. main env s = Inr out \<and>
        results out = map (\<lambda>q. fst (process_one_file env s q)) (as_completed env files) \<and>
        fst (process_one_file env s p) \<in> set (results out)) \<and>
     (\<forall>q env' s'.
        open_read env' q = open_read env q \<and> json_load env' = json_load env \<and>
        mkstemp_error env' q = mkstemp_error env q \<and>
        to_csv_error env' q = to_csv_error env q \<and> dialign env' = dialign env \<longrightarrow>
        fst (process_one_file env' s' q) = fst (process_one_file env s q))"
proof -
  have caught: "\<exists>tr. fst (process_one_file env s p) =
                Failure (basename p) (cls e @ '': '' @ msg e) tr \<and>
              tr = map (take 3) (chain e @ [''process_one_file'' # tb e]) \<and>
              length tr = Suc (length (chain e)) \<and>
              (\<forall>frames\<in>set tr. length frames \<le> 3)"
    if "fst (task_body env s p) = Inl e" for e
    using raised_is_caught [OF that] by auto
  have task: "\<forall>e.
        open_read env p = Inl e \<or>
        (\<exists>raw. open_read env p = Inr raw \<and>
          (json_load env raw = Inl e \<or>
           (\<exists>d. json_load env raw = Inr d \<and>
             (getitem_str d ''comet score'' = Inl e \<or>
              (\<exists>c. getitem_str d ''comet score'' = Inr c \<and>
                (build_turns_from_debate d = Inl e \<or>
                 (\<exists>data. build_turns_from_debate d = Inr data \<and>
                   (mkstemp_error env p = Some e \<or>
                    mkstemp_error env p = None \<and>
                    (to_csv_error env p data = Some e \<or>
                     to_csv_error env p data = None \<and>
                     (dialign env data ''Speaker'' ''Utterance'' = Inl e \<or>
                      (\<exists>si sd x1 x2 x3.
                         dialign env data ''Speaker'' ''Utterance'' = Inr (si, sd, x1, x2, x3) \<and>
                         collect_metrics p c si sd = Inl e))))))))))) \<longrightarrow>
        (\<exists>tr. fst (process_one_file env s p) =
                Failure (basename p) (cls e @ '': '' @ msg e) tr \<and>
              tr = map (take 3) (chain e @ [''process_one_file'' # tb e]) \<and>
              length tr = Suc (length (chain e)) \<and>
              (\<forall>frames\<in>set tr. length frames \<le> 3))"
  proof (intro allI impI)
    fix e
    assume "open_read env p = Inl e \<or>
        (\<exists>raw. open_read env p = Inr raw \<and>
          (json_load env raw = Inl e \<or>
           (\<exists>d. json_load env raw = Inr d \<and>
             (getitem_str d ''comet score'' = Inl e \<or>
              (\<exists>c. getitem_str d ''comet score'' = Inr c \<and>
                (build_turns_from_debate d = Inl e \<or>
                 (\<exists>data. build_turns_from_debate d = Inr data \<and>
                   (mkstemp_error env p = Some e \<or>
                    mkstemp_error env p = None \<and>
                    (to_csv_error env p data = Some e \<or>
                     to_csv_error env p data = None \<and>
                     (dialign env data ''Speaker'' ''Utterance'' = Inl e \<or>
                      (\<exists>si sd x1 x2 x3.
                         dialign env data ''Speaker'' ''Utterance'' = Inr (si, sd, x1, x2, x3) \<and>
                         collect_metrics p c si sd = Inl e)))))))))))"
    then have "fst (task_body env s p) = Inl e"
      by (rule task_body_raises)
    then show "\<exists>tr. fst (process_one_file env s p) =
                Failure (basename p) (cls e @ '': '' @ msg e) tr \<and>
              tr = map (take 3) (chain e @ [''process_one_file'' # tb e]) \<and>
              length tr = Suc (length (chain e)) \<and>
              (\<forall>frames\<in>set tr. length frames \<le> 3)"
      by (rule caught)
  qed
  have field: "\<forall>raw kvs. open_read env p = Inr raw \<and> json_load env raw = Inr (PDict kvs) \<and>
        map_of kvs ''comet score'' = None \<longrightarrow>
        fst (process_one_file env s p) =
          Failure (basename p) (''KeyError: '' @ [CHR 0x27] @ ''comet score'' @ [CHR 0x27])
            [[''process_one_file'']]"
  proof (intro allI impI)
    fix raw kvs
    assume h: "open_read env p = Inr raw \<and> json_load env raw = Inr (PDict kvs) \<and>
        map_of kvs ''comet score'' = None"
    then have "fst (task_body env s p) = Inl (raise ''KeyError'' (quoted ''comet score''))"
      by (simp add: task_body_fst load_record_def)
    from raised_is_caught [OF this]
    show "fst (process_one_file env s p) =
          Failure (basename p) (''KeyError: '' @ [CHR 0x27] @ ''comet score'' @ [CHR 0x27])
            [[''process_one_file'']]"
      by (simp add: raise_def quoted_def)
  qed
  from assms(2) have eq: "set (as_completed env files) = set files"
    by (rule mset_eq_setD)
  with assms(3) have "\<forall>q\<in>set (as_completed env files). result_error env q = None"
    by simp
  from main_run [OF assms(1) this, of s] obtain out where m: "main env s = Inr out"
    and r: "results out = map (\<lambda>q. fst (process_one_file env s q)) (as_completed env files)"
    by blast
  from assms(4) eq r have "fst (process_one_file env s p) \<in> set (results out)"
    by simp
  with m r have batch: "\<exists>out. main env s = Inr out \<and>
        results out = map (\<lambda>q. fst (process_one_file env s q)) (as_completed env files) \<and>
        fst (process_one_file env s p) \<in> set (results out)"
    by blast
  have alone: "\<forall>q env' s'.
        open_read env' q = open_read env q \<and> json_load env' = json_load env \<and>
        mkstemp_error env' q = mkstemp_error env q \<and>
        to_csv_error env' q = to_csv_error env q \<and> dialign env' = dialign env \<longrightarrow>
        fst (process_one_file env' s' q) = fst (process_one_file env s q)"
    using process_one_file_cong by blast
  show ?thesis
    by (rule conjI [OF task conjI [OF field conjI [OF batch alone]]])
qed


theorem failure_is_isolated_witness:
  "gather_files example_env = Inr [file_a, file_b] \<and>
   mset (as_completed example_env [file_a, file_b]) = mset [file_a, file_b] \<and>
   file_b \<in> set [file_a, file_b] \<and>
   open_read example_env file_b = Inr ''{'' \<and>
   json_load example_env ''{'' = Inl decode_error \<and>
   tb decode_error = [''load'', ''loads'', ''decode'', ''raw_decode''] \<and>
   fst (process_one_file example_env no_tmp file_b) =
     Failure ''b.json''
       ''JSONDecodeError: Expecting property name enclosed in double quotes: line 1 column 2 (char 1)''
       [[''process_one_file'', ''load'', ''loads'']] \<and>
   main example_env no_tmp = Inr example_out \<and>
   results example_out = [result_b, result_a] \<and>
   fst (process_one_file (example_env\<lparr>open_read := (open_read example_env)(file_b := Inr ''<a.json>'')\<rparr>)
          \<lparr>tmp_files = [(7, [])], dialign_calls = []\<rparr> file_a) = result_a \<and>
   dialign chained_env long_turns ''Speaker'' ''Utterance'' = Inl chained_error \<and>
   fst (process_one_file chained_env no_tmp file_a) =
     Failure ''a.json'' ''RuntimeError: alignment failed''
       [[''run'', ''read_table''], [''process_one_file'', ''dialign'', ''run'']] \<and>
   json_load no_score_env ''<a.json>'' = Inr (PDict [(''players'', PDict [])]) \<and>
   fst (process_one_file no_score_env no_tmp file_a) =
     Failure ''a.json'' (''KeyError: '' @ [CHR 0x27] @ ''comet score'' @ [CHR 0x27])
       [[''process_one_file'']]"
proof -
  let ?env' = "example_env\<lparr>open_read := (open_read example_env)(file_b := Inr ''<a.json>'')\<rparr>"
  have o: "mset (as_completed example_env [file_a, file_b]) = mset [file_a, file_b]"
    by (simp add: example_env_def)
  have alive: "\<forall>p\<in>set [file_a, file_b]. result_error example_env p = None"
    by (simp add: example_env_def)
  have b: "file_b \<in> set [file_a, file_b]" by simp
  have a: "file_a \<in> set [file_a, file_b]" by simp
  have rb: "open_read example_env file_b = Inr ''{''"
    by (simp add: example_env_def file_a_def file_b_def)
  have jb: "json_load example_env ''{'' = Inl decode_error"
    by (simp add: example_env_def)
  have f: "tb decode_error = [''load'', ''loads'', ''decode'', ''raw_decode'']"
    by (simp add: decode_error_def)
  have r: "results example_out = [result_b, result_a]"
    by (simp add: example_out_def)
  have agree: "open_read ?env' file_a = open_read example_env file_a \<and>
     json_load ?env' = json_load example_env \<and>
     mkstemp_error ?env' file_a = mkstemp_error example_env file_a \<and>
     to_csv_error ?env' file_a = to_csv_error example_env file_a \<and>
     dialign ?env' = dialign example_env"
    by (simp add: file_a_def file_b_def)
  note iso = failure_is_isolated [OF gather_example o alive b, of no_tmp]
  from iso rb jb have "\<exists>tr. fst (process_one_file example_env no_tmp file_b) =
     Failure (basename file_b) (cls decode_error @ '': '' @ msg decode_error) tr \<and>
     tr = map (take 3) (chain decode_error @ [''process_one_file'' # tb decode_error])"
    by blast
  then have p: "fst (process_one_file example_env no_tmp file_b) =
     Failure ''b.json''
       ''JSONDecodeError: Expecting property name enclosed in double quotes: line 1 column 2 (char 1)''
       [[''process_one_file'', ''load'', ''loads'']]"
    by (simp add: basename_b decode_error_def)
  from iso agree
  have "fst (process_one_file ?env' \<lparr>tmp_files = [(7, [])], dialign_calls = []\<rparr> file_a) =
     fst (process_one_file example_env no_tmp file_a)"
    by blast
  then have i: "fst (process_one_file ?env' \<lparr>tmp_files = [(7, [])], dialign_calls = []\<rparr> file_a) =
     result_a"
    by (simp add: process_a)
  have gc: "gather_files chained_env = Inr [file_a, file_b]"
    using gather_example by (simp add: gather_files_def chained_env_def)
  have oc: "mset (as_completed chained_env [file_a, file_b]) = mset [file_a, file_b]"
    by (simp add: chained_env_def example_env_def)
  have alivec: "\<forall>p\<in>set [file_a, file_b]. result_error chained_env p = None"
    by (simp add: chained_env_def example_env_def)
  have c1: "open_read chained_env file_a = Inr ''<a.json>''"
    and c2: "json_load chained_env ''<a.json>'' = Inr long_debate"
    and c5: "mkstemp_error chained_env file_a = None"
    and c6: "to_csv_error chained_env file_a long_turns = None"
    and c7: "dialign chained_env long_turns ''Speaker'' ''Utterance'' = Inl chained_error"
    by (simp_all add: chained_env_def example_env_def)
  from failure_is_isolated [OF gc oc alivec a, of no_tmp]
    c1 c2 long_debate_score long_debate_turns c5 c6 c7
  have "\<exists>tr. fst (process_one_file chained_env no_tmp file_a) =
     Failure (basename file_a) (cls chained_error @ '': '' @ msg chained_error) tr \<and>
     tr = map (take 3) (chain chained_error @ [''process_one_file'' # tb chained_error])"
    by blast
  then have pc: "fst (process_one_file chained_env no_tmp file_a) =
     Failure ''a.json'' ''RuntimeError: alignment failed''
       [[''run'', ''read_table''], [''process_one_file'', ''dialign'', ''run'']]"
    by (simp add: basename_a chained_error_def)
  have gn: "gather_files no_score_env = Inr [file_a, file_b]"
    using gather_example by (simp add: gather_files_def no_score_env_def)
  have on: "mset (as_completed no_score_env [file_a, file_b]) = mset [file_a, file_b]"
    by (simp add: no_score_env_def example_env_def)
  have aliven: "\<forall>p\<in>set [file_a, file_b]. result_error no_score_env p = None"
    by (simp add: no_score_env_def example_env_def)
  have n1: "open_read no_score_env file_a = Inr ''<a.json>''"
    by (simp add: no_score_env_def example_env_def)
  have n2: "json_load no_score_env ''<a.json>'' = Inr (PDict [(''players'', PDict [])])"
    by (simp add: no_score_env_def)
  have n3: "map_of [(''players'', PDict [])] ''comet score'' = None"
    by simp
  from failure_is_isolated [OF gn on aliven a, of no_tmp] n1 n2 n3
  have "fst (process_one_file no_score_env no_tmp file_a) =
     Failure (basename file_a) (''KeyError: '' @ [CHR 0x27] @ ''comet score'' @ [CHR 0x27])
       [[''process_one_file'']]"
    by blast
  then have pn: "fst (process_one_file no_score_env no_tmp file_a) =
     Failure ''a.json'' (''KeyError: '' @ [CHR 0x27] @ ''comet score'' @ [CHR 0x27])
       [[''process_one_file'']]"
    by (simp add: basename_a)
  from gather_example o b rb jb f p main_example r i c7 pc n2 pn show ?thesis
    by (intro conjI)
qed

section \<open>The seed turn\<close>

lemma build_turns_seed:
  assumes "build_turns_from_debate d = Inr turns"
  shows "turns \<noteq> [] \<and> Speaker (turns ! 0) = ''Affirmative side'' \<and>
     seed_utterance d = Inr (Utterance (turns ! 0))"
proof -
  from assms obtain u n sl where u: "seed_utterance d = Inr u"
    and a: "alternate [\<lparr>Speaker = ''Affirmative side'', Utterance = u\<rparr>] 0 (items_of sl) = Inr turns"
    by (rule build_turns_Inr)
  from alternate_Inr [OF a] have "take 1 turns = [\<lparr>Speaker = ''Affirmative side'', Utterance = u\<rparr>]"
    by simp
  then have "turns \<noteq> []" and "turns ! 0 = \<lparr>Speaker = ''Affirmative side'', Utterance = u\<rparr>"
    by (cases turns; simp)+
  with u show ?thesis by simp
qed

lemma seed_raises_build:
  assumes "seed_utterance d = Inl e"
  shows "build_turns_from_debate d = Inl (e\<lparr>tb := ''build_turns_from_debate'' # tb e\<rparr>)"
  using assms by (simp add: build_turns_from_debate_def in_frame_def)

lemma getitem_str_Inr:
  assumes "getitem_str v k = Inr x"
  obtains kvs where "v = PDict kvs" "map_of kvs k = Some x"
  using assms by (cases v) (auto split: option.splits)

lemma getitem_int_Inr:
  assumes "getitem_int v i = Inr x"
  shows "(\<exists>xs. v = PList xs \<and> i < length xs \<and> x = xs ! i) \<or>
     (\<exists>s. v = PStr s \<and> i < length s \<and> x = PStr [s ! i])"
  using assms by (cases v) (auto split: if_splits)

lemma seed_utterance_Inr:
  assumes "seed_utterance d = Inr u"
  shows "\<exists>doc ps aff kvs. d = PDict doc \<and> map_of doc ''players'' = Some (PDict ps) \<and>
     map_of ps ''Affirmative side'' = Some (PList aff) \<and> 5 < length aff \<and>
     aff ! 5 = PDict kvs \<and> map_of kvs ''content'' = Some u"
proof -
  from assms obtain pl a t where pl: "getitem_str d ''players'' = Inr pl"
    and a: "getitem_str pl ''Affirmative side'' = Inr a"
    and t: "getitem_int a 5 = Inr t" and u: "getitem_str t ''content'' = Inr u"
    unfolding seed_utterance_def side_turns_def bind_Inr_iff by blast
  from pl obtain doc where doc: "d = PDict doc" "map_of doc ''players'' = Some pl"
    by (rule getitem_str_Inr)
  from a obtain ps where ps: "pl = PDict ps" "map_of ps ''Affirmative side'' = Some a"
    by (rule getitem_str_Inr)
  from u obtain kvs where kvs: "t = PDict kvs" "map_of kvs ''content'' = Some u"
    by (rule getitem_str_Inr)
  from getitem_int_Inr [OF t] kvs(1) obtain aff where aff: "a = PList aff" "5 < length aff"
    "t = aff ! 5"
    by auto
  from doc ps kvs aff show ?thesis by auto
qed

lemma seed_utterance_built:
  assumes "d = PDict doc" and "map_of doc ''players'' = Some (PDict ps)"
    and "map_of ps ''Affirmative side'' = Some (PList aff)"
  shows "seed_utterance d =
     (if length aff < 6 then Inl (raise ''IndexError'' ''list index out of range'')
      else getitem_str (aff ! 5) ''content'')"
  using assms by (auto simp add: seed_utterance_def side_turns_def)

text \<open>
  Claim C10. When the turn sequence is built, the record has under \<^verbatim>\<open>players\<close> an
  Affirmative side that is a list with an entry at index 5, that entry is an object, and
  the utterance of the seed row is the value of its \<^verbatim>\<open>content\<close> field. So when the file
  parses to a record whose Affirmative side has fewer than six turns, or that lacks one
  of these keys, the task returns an error record that names the file: it neither raises
  nor returns a success record. With the score present and the list too short, the
  cause is the index error of the list.
\<close>

theorem short_affirmative_side_fails:
  assumes "open_read env p = Inr raw" and "json_load env raw = Inr d"
  shows "(\<forall>turns. build_turns_from_debate d = Inr turns \<longrightarrow>
        (\<exists>doc ps aff kvs. d = PDict doc \<and> map_of doc ''players'' = Some (PDict ps) \<and>
           map_of ps ''Affirmative side'' = Some (PList aff) \<and> 5 < length aff \<and>
           aff ! 5 = PDict kvs \<and> map_of kvs ''content'' = Some (Utterance (turns ! 0)) \<and>
           turns \<noteq> [] \<and> Speaker (turns ! 0) = ''Affirmative side'')) \<and>
     (\<forall>doc c ps aff. d = PDict doc \<and> map_of doc ''comet score'' = Some c \<and>
        map_of doc ''players'' = Some (PDict ps) \<and>
        map_of ps ''Affirmative side'' = Some (PList aff) \<and> length aff < 6 \<longrightarrow>
        fst (process_one_file env s p) =
          Failure (basename p) ''IndexError: list index out of range''
            [[''process_one_file'', ''build_turns_from_debate'']]) \<and>
     (\<not> (\<exists>doc ps aff kvs c. d = PDict doc \<and> map_of doc ''players'' = Some (PDict ps) \<and>
           map_of ps ''Affirmative side'' = Some (PList aff) \<and> 5 < length aff \<and>
           aff ! 5 = PDict kvs \<and> map_of kvs ''content'' = Some c) \<longrightarrow>
      (\<exists>err tr. fst (process_one_file env s p) = Failure (basename p) err tr))"
proof -
  have p1: "\<forall>turns. build_turns_from_debate d = Inr turns \<longrightarrow>
        (\<exists>doc ps aff kvs. d = PDict doc \<and> map_of doc ''players'' = Some (PDict ps) \<and>
           map_of ps ''Affirmative side'' = Some (PList aff) \<and> 5 < length aff \<and>
           aff ! 5 = PDict kvs \<and> map_of kvs ''content'' = Some (Utterance (turns ! 0)) \<and>
           turns \<noteq> [] \<and> Speaker (turns ! 0) = ''Affirmative side'')"
  proof (intro allI impI)
    fix turns assume "build_turns_from_debate d = Inr turns"
    from build_turns_seed [OF this] have t: "turns \<noteq> []"
      "Speaker (turns ! 0) = ''Affirmative side''"
      and u: "seed_utterance d = Inr (Utterance (turns ! 0))"
      by simp_all
    from seed_utterance_Inr [OF u] t
    show "\<exists>doc ps aff kvs. d = PDict doc \<and> map_of doc ''players'' = Some (PDict ps) \<and>
           map_of ps ''Affirmative side'' = Some (PList aff) \<and> 5 < length aff \<and>
           aff ! 5 = PDict kvs \<and> map_of kvs ''content'' = Some (Utterance (turns ! 0)) \<and>
           turns \<noteq> [] \<and> Speaker (turns ! 0) = ''Affirmative side''"
      by blast
  qed
  have p2: "\<forall>doc c ps aff. d = PDict doc \<and> map_of doc ''comet score'' = Some c \<and>
        map_of doc ''players'' = Some (PDict ps) \<and>
        map_of ps ''Affirmative side'' = Some (PList aff) \<and> length aff < 6 \<longrightarrow>
        fst (process_one_file env s p) =
          Failure (basename p) ''IndexError: list index out of range''
            [[''process_one_file'', ''build_turns_from_debate'']]"
  proof (intro allI impI)
    fix doc c ps aff
    assume h: "d = PDict doc \<and> map_of doc ''comet score'' = Some c \<and>
        map_of doc ''players'' = Some (PDict ps) \<and>
        map_of ps ''Affirmative side'' = Some (PList aff) \<and> length aff < 6"
    then have "seed_utterance d = Inl (raise ''IndexError'' ''list index out of range'')"
      using seed_utterance_built [of d doc ps aff] by simp
    from seed_raises_build [OF this] h assms
    have "fst (task_body env s p) =
       Inl ((raise ''IndexError'' ''list index out of range'')
              \<lparr>tb := ''build_turns_from_debate'' # tb (raise ''IndexError'' ''list index out of range'')\<rparr>)"
      by (simp add: task_body_fst load_record_def)
    from raised_is_caught [OF this]
    show "fst (process_one_file env s p) =
          Failure (basename p) ''IndexError: list index out of range''
            [[''process_one_file'', ''build_turns_from_debate'']]"
      by (simp add: raise_def)
  qed
  have p3: "\<not> (\<exists>doc ps aff kvs c. d = PDict doc \<and> map_of doc ''players'' = Some (PDict ps) \<and>
           map_of ps ''Affirmative side'' = Some (PList aff) \<and> 5 < length aff \<and>
           aff ! 5 = PDict kvs \<and> map_of kvs ''content'' = Some c) \<longrightarrow>
      (\<exists>err tr. fst (process_one_file env s p) = Failure (basename p) err tr)"
  proof
    assume h: "\<not> (\<exists>doc ps aff kvs c. d = PDict doc \<and> map_of doc ''players'' = Some (PDict ps) \<and>
           map_of ps ''Affirmative side'' = Some (PList aff) \<and> 5 < length aff \<and>
           aff ! 5 = PDict kvs \<and> map_of kvs ''content'' = Some c)"
    have "\<exists>e. seed_utterance d = Inl e"
    proof (cases "seed_utterance d")
      case (Inl e)
      then show ?thesis by blast
    next
      case (Inr u)
      from seed_utterance_Inr [OF this] h show ?thesis by blast
    qed
    then obtain e where "build_turns_from_debate d = Inl e"
      using seed_raises_build by blast
    with assms have "\<exists>e'. fst (task_body env s p) = Inl e'"
      by (cases "getitem_str d ''comet score''") (simp_all add: task_body_fst load_record_def)
    then obtain e' where "fst (task_body env s p) = Inl e'" by blast
    from raised_is_caught [OF this]
    show "\<exists>err tr. fst (process_one_file env s p) = Failure (basename p) err tr"
      by blast
  qed
  show ?thesis by (rule conjI [OF p1 conjI [OF p2 p3]])
qed


theorem short_affirmative_side_fails_witness:
  "open_read five_turn_env file_a = Inr ''<a.json>'' \<and>
   json_load five_turn_env ''<a.json>'' = Inr five_turn_debate \<and>
   five_turn_debate =
     PDict [(''comet score'', PFloat (17 / 20)),
            (''players'',
               PDict [(''Affirmative side'',
                         PList [turn ''a0'', turn ''a1'', turn ''a2'', turn ''a3'', turn ''a4'']),
                      (''Negative side'', PList [turn ''n0'', turn ''n1'', turn ''n2''])])] \<and>
   fst (process_one_file five_turn_env no_tmp file_a) =
     Failure ''a.json'' ''IndexError: list index out of range''
       [[''process_one_file'', ''build_turns_from_debate'']] \<and>
   json_load example_env ''<a.json>'' = Inr long_debate \<and>
   build_turns_from_debate long_debate = Inr long_turns \<and>
   six_turns ! 5 = PDict [(''role'', PStr ''assistant''), (''content'', PStr ''a5'')] \<and>
   Utterance (long_turns ! 0) = PStr ''a5'' \<and>
   json_load no_players_env ''<a.json>'' = Inr (PDict [(''comet score'', PFloat (17 / 20))]) \<and>
   fst (process_one_file no_players_env no_tmp file_a) =
     Failure ''a.json'' (''KeyError: '' @ [CHR 0x27] @ ''players'' @ [CHR 0x27])
       [[''process_one_file'', ''build_turns_from_debate'']]"
proof -
  have o: "open_read five_turn_env file_a = Inr ''<a.json>''"
    by (simp add: five_turn_env_def example_env_def)
  have j: "json_load five_turn_env ''<a.json>'' = Inr five_turn_debate"
    by (simp add: five_turn_env_def)
  have d: "five_turn_debate =
     PDict [(''comet score'', PFloat (17 / 20)),
            (''players'',
               PDict [(''Affirmative side'',
                         PList [turn ''a0'', turn ''a1'', turn ''a2'', turn ''a3'', turn ''a4'']),
                      (''Negative side'', PList [turn ''n0'', turn ''n1'', turn ''n2''])])]"
    by (simp add: five_turn_debate_def debate_of_def)
  from short_affirmative_side_fails [OF o j, of no_tmp]
  have "\<forall>doc c ps aff. five_turn_debate = PDict doc \<and> map_of doc ''comet score'' = Some c \<and>
        map_of doc ''players'' = Some (PDict ps) \<and>
        map_of ps ''Affirmative side'' = Some (PList aff) \<and> length aff < 6 \<longrightarrow>
        fst (process_one_file five_turn_env no_tmp file_a) =
          Failure (basename file_a) ''IndexError: list index out of range''
            [[''process_one_file'', ''build_turns_from_debate'']]"
    by blast
  from this [rule_format,
      of "[(''comet score'', PFloat (17 / 20)),
            (''players'',
               PDict [(''Affirmative side'',
                         PList [turn ''a0'', turn ''a1'', turn ''a2'', turn ''a3'', turn ''a4'']),
                      (''Negative side'', PList [turn ''n0'', turn ''n1'', turn ''n2''])])]"
         "PFloat (17 / 20)"
         "[(''Affirmative side'',
              PList [turn ''a0'', turn ''a1'', turn ''a2'', turn ''a3'', turn ''a4'']),
           (''Negative side'', PList [turn ''n0'', turn ''n1'', turn ''n2''])]"
         "[turn ''a0'', turn ''a1'', turn ''a2'', turn ''a3'', turn ''a4'']"] d
  have f: "fst (process_one_file five_turn_env no_tmp file_a) =
     Failure ''a.json'' ''IndexError: list index out of range''
       [[''process_one_file'', ''build_turns_from_debate'']]"
    by (simp add: basename_a)
  have o': "open_read example_env file_a = Inr ''<a.json>''"
    and j': "json_load example_env ''<a.json>'' = Inr long_debate"
    by (simp_all add: example_env_def)
  from short_affirmative_side_fails [OF o' j', of no_tmp] long_debate_turns
  obtain doc ps aff kvs where "long_debate = PDict doc"
    "map_of doc ''players'' = Some (PDict ps)"
    "map_of ps ''Affirmative side'' = Some (PList aff)" "aff ! 5 = PDict kvs"
    "map_of kvs ''content'' = Some (Utterance (long_turns ! 0))"
    by blast
  then have u: "Utterance (long_turns ! 0) = PStr ''a5''"
    by (auto simp add: long_debate_def debate_of_def six_turns_def turn_def)
  have six: "six_turns ! 5 = PDict [(''role'', PStr ''assistant''), (''content'', PStr ''a5'')]"
    by (simp add: six_turns_def turn_def)
  have o'': "open_read no_players_env file_a = Inr ''<a.json>''"
    by (simp add: no_players_env_def example_env_def)
  have j'': "json_load no_players_env ''<a.json>'' = Inr (PDict [(''comet score'', PFloat (17 / 20))])"
    by (simp add: no_players_env_def)
  have "\<not> (\<exists>doc ps aff kvs c.
     PDict [(''comet score'', PFloat (17 / 20))] = PDict doc \<and>
     map_of doc ''players'' = Some (PDict ps) \<and>
     map_of ps ''Affirmative side'' = Some (PList aff) \<and> 5 < length aff \<and>
     aff ! 5 = PDict kvs \<and> map_of kvs ''content'' = Some c)"
    by simp
  with short_affirmative_side_fails [OF o'' j'', of no_tmp]
  obtain err tr where "fst (process_one_file no_players_env no_tmp file_a) =
     Failure (basename file_a) err tr"
    by blast
  moreover have "fst (task_body no_players_env no_tmp file_a) =
     Inl ((raise ''KeyError'' (quoted ''players''))\<lparr>tb := [''build_turns_from_debate'']\<rparr>)"
    using o'' j''
    by (simp add: task_body_fst load_record_def build_turns_from_debate_def seed_utterance_def
        side_turns_def in_frame_def raise_def)
  ultimately have n: "fst (process_one_file no_players_env no_tmp file_a) =
     Failure ''a.json'' (''KeyError: '' @ [CHR 0x27] @ ''players'' @ [CHR 0x27])
       [[''process_one_file'', ''build_turns_from_debate'']]"
    using raised_is_caught [of no_players_env no_tmp file_a]
    by (simp add: basename_a raise_def quoted_def)
  from o j d f j' long_debate_turns six u j'' n show ?thesis
    by (intro conjI)
qed

end
